theory Spec2Isabelle
  imports Complex_Main "HOL-Library.Multiset" "HOL-Library.Product_Lexorder"
begin

section \<open>Data model\<close>

text \<open>
  The combat code works on plain JavaScript objects. A character (player, companion or
  enemy instance) is modelled as one record; a field the code itself tests for absence
  (\<^verbatim>\<open>character.level ? ... : 2\<close>, \<^verbatim>\<open>!character.stats\<close>,
  \<^verbatim>\<open>character.hitDiceType || 8\<close>, \<^verbatim>\<open>character.inventory || []\<close>) is an option,
  \<open>None\<close> standing for \<^verbatim>\<open>undefined\<close>. Numbers are JavaScript numbers holding
  integers; they are modelled as \<open>int\<close>, which is exact below \<open>2 ^ 53\<close>.
  The ability scores are a dictionary from the stat's name (\<^verbatim>\<open>force\<close>,
  \<^verbatim>\<open>dexterite\<close>, \<^verbatim>\<open>constitution\<close>, ...) to its score.

  Field names follow the source; \<^verbatim>\<open>id\<close>, \<^verbatim>\<open>type\<close> and \<^verbatim>\<open>range\<close> clash with
  constants of HOL and carry a prefix.
\<close>

type_synonym stats = "string \<rightharpoonup> int"

record effect =
  effect_type :: string
  effect_value :: int

record item =
  item_id :: "string option"
  item_name :: "string option"
  item_nom :: "string option"
  quantity :: "int option"
  effects :: "effect list option"
  consumable :: bool
  item_type :: "string option"

record attack =
  attack_name :: string
  damage :: "string option"
  damageDice :: "string option"
  damageBonus :: "int option"
  attackBonus :: "int option"
  weapon_stat :: "string option"
  weapon_category :: "string option"
  weapon_type :: "string option"
  weapon_range :: "int option"

record character =
  entity_id :: "string option"
  name :: string
  entity_type :: "string option"
  level :: "int option"
  currentHP :: int
  maxHP :: int
  ac :: "int option"
  stats :: "stats option"
  attacks :: "attack list"
  image :: string
  hitDice :: "int option"
  hitDiceType :: "int option"
  inventory :: "item list option"
  initiative :: "int option"
  isAlive :: "bool option"

text \<open>
  Errors as values. \<open>NoEnemiesDefined\<close> and \<open>PlayerRequired\<close> are the two
  \<^verbatim>\<open>throw new Error(...)\<close> of \<^verbatim>\<open>CombatService\<close>; \<open>TypeError\<close> is what
  JavaScript raises on reading a property of \<^verbatim>\<open>undefined\<close>; \<open>RangeError\<close> is what
  \<^verbatim>\<open>Array(n)\<close> raises when \<open>n\<close> is not an array length. \<open>NotANumber\<close> is not
  an exception: it marks a run whose arithmetic meets an absent operand and produces
  \<^verbatim>\<open>NaN\<close>, which leaves the integer model; nothing is claimed about such runs.
\<close>

datatype error = NoEnemiesDefined | PlayerRequired | TypeError | RangeError | NotANumber

text \<open>
  The attack bonus is the one number the code itself tests with \<^verbatim>\<open>isNaN\<close>, and a
  \<^verbatim>\<open>NaN\<close> bonus does not stop an attack; so the bonus and the attack total are
  numbers that may be \<^verbatim>\<open>NaN\<close>. A sum with \<^verbatim>\<open>NaN\<close> is \<^verbatim>\<open>NaN\<close>, and a
  comparison with \<^verbatim>\<open>NaN\<close> or with \<^verbatim>\<open>undefined\<close> is false.
\<close>

datatype jsnum = Num int | NaN

definition addNum :: "int \<Rightarrow> jsnum \<Rightarrow> jsnum" where
  "addNum a b = (case b of Num x \<Rightarrow> Num (a + x) | NaN \<Rightarrow> NaN)"

definition reaches :: "jsnum \<Rightarrow> int option \<Rightarrow> bool" where
  "reaches a b = (case (a, b) of (Num x, Some y) \<Rightarrow> x \<ge> y | _ \<Rightarrow> False)"

text \<open>
  Reading \<^verbatim>\<open>character.stats[stat]\<close> for a stat name that comes from the weapon: the
  ability scores are a plain object, so a name that is not a score of its own is looked
  up in \<^verbatim>\<open>Object.prototype\<close>. What is found there is a function or an object, not
  a number (\<open>Inherited\<close>); for any other name the result is \<^verbatim>\<open>undefined\<close>.
\<close>

definition objectPrototypeKeys :: "string list" where
  "objectPrototypeKeys =
     [''constructor'', ''toString'', ''toLocaleString'', ''valueOf'', ''hasOwnProperty'',
      ''isPrototypeOf'', ''propertyIsEnumerable'', ''__proto__'', ''__defineGetter__'',
      ''__defineSetter__'', ''__lookupGetter__'', ''__lookupSetter__'']"

datatype property = Undefined | Number int | Inherited

definition readStat :: "stats \<Rightarrow> string \<Rightarrow> property" where
  "readStat st key =
     (case st key of
        Some v \<Rightarrow> Number v
      | None \<Rightarrow> if key \<in> set objectPrototypeKeys then Inherited else Undefined)"

section \<open>Combat outcome (CombatService.checkCombatEnd)\<close>

definition isDefeated :: "'a character_scheme \<Rightarrow> bool" where
  "isDefeated c = (currentHP c \<le> 0)"

text \<open>The result is \<^verbatim>\<open>'defeat'\<close>, \<^verbatim>\<open>'victory'\<close> or \<^verbatim>\<open>null\<close> (\<open>None\<close>).\<close>

definition checkCombatEnd ::
  "character \<Rightarrow> character option \<Rightarrow> character list \<Rightarrow> string option" where
  "checkCombatEnd playerCharacter playerCompanion enemies =
     (let playerDefeated = isDefeated playerCharacter;
          companionDefeated =
            (case playerCompanion of Some c \<Rightarrow> isDefeated c | None \<Rightarrow> True);
          allEnemiesDefeated = list_all isDefeated enemies
      in if playerDefeated \<and> companionDefeated then Some ''defeat''
         else if allEnemiesDefeated then Some ''victory''
         else None)"

section \<open>Skipping defeated combatants (CombatTurnManager.skipToNextAliveCombatant)\<close>

text \<open>
  The \<^verbatim>\<open>do ... while (attempts < maxAttempts)\<close> loop, one call per iteration; the loop
  state is \<open>nextIndex\<close> and \<open>attempts\<close>. The test \<^verbatim>\<open>attempts >= maxAttempts\<close> comes
  before the combatant at the new index is looked at, as in the source. The index
  \<open>nextIndex'\<close> is below the length whenever the list is read, so the read is in range.
\<close>

function skip_loop :: "character list \<Rightarrow> nat \<Rightarrow> nat \<Rightarrow> nat option" where
  "skip_loop turnOrder nextIndex attempts =
     (let nextIndex' = (nextIndex + 1) mod length turnOrder;
          attempts' = attempts + 1
      in if attempts' \<ge> length turnOrder then None
         else if currentHP (turnOrder ! nextIndex') > 0 then Some nextIndex'
         else if attempts' < length turnOrder
              then skip_loop turnOrder nextIndex' attempts'
              else None)"
  by pat_completeness auto
termination
  by (relation "measure (\<lambda>(turnOrder, nextIndex, attempts). length turnOrder - attempts)") auto

declare skip_loop.simps [simp del]

definition skipToNextAliveCombatant :: "nat \<Rightarrow> character list \<Rightarrow> nat option" where
  "skipToNextAliveCombatant currentTurn turnOrder = skip_loop turnOrder currentTurn 0"

section \<open>Dice (CombatService.rollD20, CombatService.rollDamage)\<close>

text \<open>
  \<^verbatim>\<open>Math.random()\<close> is the only source of chance. It is modelled as a sequence
  \<open>rnd\<close> of real numbers, \<open>rnd k\<close> being the value of the \<open>k\<close>-th call; the state
  threaded through the code is the number \<open>k\<close> of calls made so far, so a function that
  rolls returns its result with the new count. The product \<^verbatim>\<open>Math.random() * n\<close> is
  taken exactly (the rounding of doubles is left out).
\<close>

type_synonym random = "nat \<Rightarrow> real"

text \<open>\<^verbatim>\<open>Math.floor(Math.random() * sides) + 1\<close>\<close>

definition rollDie :: "real \<Rightarrow> int \<Rightarrow> int" where
  "rollDie r sides = \<lfloor>r * of_int sides\<rfloor> + 1"

definition rollD20 :: "random \<Rightarrow> nat \<Rightarrow> int \<times> nat" where
  "rollD20 rnd k = (rollDie (rnd k) 20, k + 1)"

text \<open>
  \<^verbatim>\<open>damageString.match(/(\d+)d(\d+)(\+(\d+))?/)\<close>. The expression is not anchored:
  \<^verbatim>\<open>match\<close> tries every start position from the left and returns the first match.
  At one position, \<^verbatim>\<open>\d+\<close> is greedy and the character after the digits must be
  \<^verbatim>\<open>d\<close> (a shorter run of digits is followed by a digit, so backtracking never
  helps); the optional group is taken when a \<^verbatim>\<open>+\<close> and at least one digit follow.
  The result holds the captures \<open>numDice\<close>, \<open>dieSize\<close> and \<open>bonus\<close>
  (\<open>None\<close> when the optional group did not take part).
\<close>

definition isDigit :: "char \<Rightarrow> bool" where
  "isDigit c = (c \<in> set ''0123456789'')"

definition matchHere :: "string \<Rightarrow> (string \<times> string \<times> string option) option" where
  "matchHere s =
     (let numDice = takeWhile isDigit s; afterNum = dropWhile isDigit s
      in if numDice = [] then None
         else (case afterNum of
                 [] \<Rightarrow> None
               | c # afterD \<Rightarrow>
                   if c \<noteq> CHR ''d'' then None
                   else (let dieSize = takeWhile isDigit afterD;
                             afterDie = dropWhile isDigit afterD
                         in if dieSize = [] then None
                            else (case afterDie of
                                    [] \<Rightarrow> Some (numDice, dieSize, None)
                                  | p # afterPlus \<Rightarrow>
                                      if p = CHR ''+'' \<and> takeWhile isDigit afterPlus \<noteq> []
                                      then Some (numDice, dieSize,
                                                 Some (takeWhile isDigit afterPlus))
                                      else Some (numDice, dieSize, None)))))"

fun damageMatch :: "string \<Rightarrow> (string \<times> string \<times> string option) option" where
  "damageMatch [] = None"
| "damageMatch (c # cs) =
     (case matchHere (c # cs) of
        Some m \<Rightarrow> Some m
      | None \<Rightarrow> damageMatch cs)"

text \<open>\<^verbatim>\<open>parseInt\<close> on a capture of \<^verbatim>\<open>\d+\<close>: the decimal value of the digits.\<close>

definition digitValue :: "char \<Rightarrow> nat" where
  "digitValue c = of_char c - 48"

definition parseInt :: "string \<Rightarrow> nat" where
  "parseInt ds = foldl (\<lambda>acc c. 10 * acc + digitValue c) 0 ds"

text \<open>
  The \<^verbatim>\<open>for (let i = 0; i < parseInt(numDice); i++)\<close> loop; its state is \<open>i\<close>,
  \<open>tot\<close> (the source's \<^verbatim>\<open>total\<close>) and the count of random draws.
\<close>

function rollDamage_loop :: "random \<Rightarrow> nat \<Rightarrow> nat \<Rightarrow> nat \<Rightarrow> int \<Rightarrow> nat \<Rightarrow> int \<times> nat" where
  "rollDamage_loop rnd numDice dieSize i tot k =
     (if i < numDice
      then rollDamage_loop rnd numDice dieSize (i + 1) (tot + rollDie (rnd k) (int dieSize)) (k + 1)
      else (tot, k))"
  by pat_completeness auto
termination
  by (relation "measure (\<lambda>(rnd, numDice, dieSize, i, tot, k). numDice - i)") auto

declare rollDamage_loop.simps [simp del]

definition rollDamage :: "random \<Rightarrow> string \<Rightarrow> nat \<Rightarrow> int \<times> nat" where
  "rollDamage rnd damageString k =
     (case damageMatch damageString of
        None \<Rightarrow> (0, k)
      | Some (numDice, dieSize, bonus) \<Rightarrow>
          (let (tot, k') = rollDamage_loop rnd (parseInt numDice) (parseInt dieSize) 0 0 k
           in (tot + (case bonus of Some b \<Rightarrow> int (parseInt b) | None \<Rightarrow> 0), k')))"

section \<open>Attack bonus (CombatService.getAttackBonus)\<close>

text \<open>
  Modelled from the spec: \<^verbatim>\<open>getModifier\<close> is imported from
  \<^verbatim>\<open>utils/calculations\<close>, which is not among the sources. The spec gives it as
  \<^verbatim>\<open>abilityModifier(score) = floor((score - 10) / 2)\<close>.
\<close>

definition getModifier :: "int \<Rightarrow> int" where
  "getModifier score = (score - 10) div 2"

text \<open>
  The sources hold two revisions of the class \<^verbatim>\<open>CombatService\<close>. The one with
  \<^verbatim>\<open>executeEntityAttack\<close>, \<^verbatim>\<open>getSpellAttackBonus\<close> and the companion actions is
  the one the specification describes; in the sources it follows the store in the listing
  of \<^verbatim>\<open>stores/characterStore.js\<close>. The two agree on \<^verbatim>\<open>checkCombatEnd\<close>,
  \<^verbatim>\<open>rollD20\<close>, \<^verbatim>\<open>rollDamage\<close>, \<^verbatim>\<open>executeAttack\<close>, \<^verbatim>\<open>rollInitiative\<close> and
  \<^verbatim>\<open>createEnemiesFromEncounter\<close>, and differ on \<^verbatim>\<open>getAttackBonus\<close>.

  \<^verbatim>\<open>getAttackBonus\<close> of that revision (lines 1033 to 1065 of the listing). A
  string is truthy when it is not empty, a number when it is not zero.
  \<^verbatim>\<open>Math.ceil(level / 4)\<close> is the ceiling of the exact quotient. The modifier of a
  value that is not a number is \<^verbatim>\<open>NaN\<close>.
\<close>

definition getAttackBonus :: "'a character_scheme \<Rightarrow> attack \<Rightarrow> jsnum" where
  "getAttackBonus character weapon =
     (case attackBonus weapon of
        Some b \<Rightarrow> Num b
      | None \<Rightarrow>
          (let proficiencyBonus =
                 (case level character of
                    Some l \<Rightarrow> if l \<noteq> 0 then \<lceil>(of_int l :: real) / 4\<rceil> + 1 else 2
                  | None \<Rightarrow> 2)
           in case stats character of
                None \<Rightarrow> Num 0
              | Some st \<Rightarrow>
                  (let stat =
                         (if weapon_stat weapon \<noteq> None \<and> weapon_stat weapon \<noteq> Some []
                          then the (weapon_stat weapon)
                          else if weapon_category weapon = Some ''ranged''
                                  \<or> weapon_type weapon = Some ''ranged''
                                  \<or> (case weapon_range weapon of
                                        Some r \<Rightarrow> r \<noteq> 0 \<and> r > 1
                                      | None \<Rightarrow> False)
                               then ''dexterite''
                               else ''force'')
                   in case readStat st stat of
                        Undefined \<Rightarrow> Num proficiencyBonus
                      | Number statValue \<Rightarrow> Num (getModifier statValue + proficiencyBonus)
                      | Inherited \<Rightarrow> NaN)))"

text \<open>
  The file \<^verbatim>\<open>services/CombatService.js\<close> itself holds the shorter revision. Its
  \<^verbatim>\<open>getAttackBonus\<close> (lines 273 to 282) reads neither \<^verbatim>\<open>weapon.attackBonus\<close> nor
  \<^verbatim>\<open>weapon.stat\<close> and has no guard: it raises a TypeError when the character has no
  \<^verbatim>\<open>stats\<close>, and its sum is \<^verbatim>\<open>NaN\<close> when the level or the stat is absent.
  \<^verbatim>\<open>weapon.range > 5\<close> is false for an absent range.
\<close>

definition getAttackBonus_earlier :: "'a character_scheme \<Rightarrow> attack \<Rightarrow> error + jsnum" where
  "getAttackBonus_earlier character weapon =
     (case stats character of
        None \<Rightarrow> Inl TypeError
      | Some sc \<Rightarrow>
          (case sc (if (case weapon_range weapon of Some r \<Rightarrow> r > 5 | None \<Rightarrow> False)
                    then ''dexterite'' else ''force'') of
             None \<Rightarrow> Inr NaN
           | Some statValue \<Rightarrow>
               (case level character of
                  None \<Rightarrow> Inr NaN
                | Some l \<Rightarrow>
                    Inr (Num (getModifier statValue + (\<lceil>(of_int l :: real) / 4\<rceil> + 1))))))"

section \<open>Player attacks (CombatService.executeAttack)\<close>

text \<open>
  A narrative message is a text and a category. The texts are template strings filled
  with names and numbers; each template is a constructor that carries what is filled in,
  in the order of the template.
\<close>

datatype narrative =
    CriticalText string int string
  | HitText string string int
  | MissText string string jsnum "int option"
  | AlreadyFallenText string string
  | EntityCriticalText string string int string
  | EntityHitText string string int string
  | EntityMissText string string string int int

record message =
  message_text :: narrative
  message_type :: string

record damage_entry =
  targetId :: "string option"
  entry_damage :: int

text \<open>
  The \<^verbatim>\<open>results\<close> object of \<^verbatim>\<open>executePlayerAction\<close>: its \<^verbatim>\<open>damage\<close>,
  \<^verbatim>\<open>effects\<close> and \<^verbatim>\<open>messages\<close> arrays. \<^verbatim>\<open>executeAttack\<close> pushes onto the first
  and the last.
\<close>

record results =
  results_damage :: "damage_entry list"
  results_effects :: "string list"
  results_messages :: "message list"

text \<open>
  \<^verbatim>\<open>executeAttack\<close> reads the same in both revisions of the class, and calls
  \<^verbatim>\<open>this.getAttackBonus\<close>, which does not. The method called is therefore the
  parameter \<open>bonusOf\<close>: \<open>getAttackBonus_earlier\<close> for \<^verbatim>\<open>executeAttack\<close> of
  \<^verbatim>\<open>services/CombatService.js\<close> (lines 219 to 255), \<open>getAttackBonus\<close>, which
  does not raise, for the other revision.

  The body of \<^verbatim>\<open>targets.forEach\<close>, for one target. The state is the results so far
  and the count of random draws. The die is rolled before the bonus is computed, and an
  exception of \<^verbatim>\<open>getAttackBonus\<close> leaves the loop. \<^verbatim>\<open>totalAttack >= target.ac\<close> is
  false when the total is \<^verbatim>\<open>NaN\<close> or the target has no \<^verbatim>\<open>ac\<close>;
  \<^verbatim>\<open>rollDamage(weapon.damage)\<close> raises a TypeError when the weapon has no
  \<^verbatim>\<open>damage\<close> string (\<^verbatim>\<open>undefined.match\<close>).
\<close>

definition attackTarget ::
  "('a character_scheme \<Rightarrow> attack \<Rightarrow> error + jsnum) \<Rightarrow> random \<Rightarrow> 'a character_scheme
     \<Rightarrow> attack \<Rightarrow> 'b character_scheme \<Rightarrow> results \<times> nat \<Rightarrow> error + results \<times> nat" where
  "attackTarget bonusOf rnd attacker weapon target st =
     (let (res, k) = st;
          (attackRoll, k1) = rollD20 rnd k
      in case bonusOf attacker weapon of
           Inl e \<Rightarrow> Inl e
         | Inr bonus \<Rightarrow>
     (let totalAttack = addNum attackRoll bonus;
          criticalHit = (attackRoll = 20);
          hit = (reaches totalAttack (ac target) \<or> criticalHit)
      in if hit
         then (case damage weapon of
                 None \<Rightarrow> Inl TypeError
               | Some damageString \<Rightarrow>
                   (let (rolled, k2) = rollDamage rnd damageString k1
                    in if criticalHit
                       then (let doubled = rolled * 2
                             in Inr (res\<lparr>results_messages := results_messages res @
                                          [\<lparr>message_text = CriticalText (name attacker) doubled (name target),
                                            message_type = ''critical''\<rparr>],
                                        results_damage := results_damage res @
                                          [\<lparr>targetId = entity_id target, entry_damage = doubled\<rparr>]\<rparr>,
                                     k2))
                       else Inr (res\<lparr>results_messages := results_messages res @
                                     [\<lparr>message_text = HitText (name attacker) (name target) rolled,
                                       message_type = ''hit''\<rparr>],
                                   results_damage := results_damage res @
                                     [\<lparr>targetId = entity_id target, entry_damage = rolled\<rparr>]\<rparr>,
                                 k2)))
         else Inr (res\<lparr>results_messages := results_messages res @
                       [\<lparr>message_text = MissText (name attacker) (name target) totalAttack (ac target),
                         message_type = ''miss''\<rparr>]\<rparr>,
                   k1)))"

text \<open>\<^verbatim>\<open>targets.forEach(...)\<close>, then \<^verbatim>\<open>return results\<close>; an exception ends the loop.\<close>

fun executeAttack ::
  "('a character_scheme \<Rightarrow> attack \<Rightarrow> error + jsnum) \<Rightarrow> random \<Rightarrow> 'a character_scheme
     \<Rightarrow> attack \<Rightarrow> 'b character_scheme list \<Rightarrow> results \<times> nat \<Rightarrow> error + results \<times> nat" where
  "executeAttack bonusOf rnd attacker weapon [] st = Inr st"
| "executeAttack bonusOf rnd attacker weapon (target # targets) st =
     (case attackTarget bonusOf rnd attacker weapon target st of
        Inl e \<Rightarrow> Inl e
      | Inr st' \<Rightarrow> executeAttack bonusOf rnd attacker weapon targets st')"

text \<open>The \<^verbatim>\<open>getAttackBonus\<close> that does not raise, as a callee.\<close>

definition laterBonus :: "'a character_scheme \<Rightarrow> attack \<Rightarrow> error + jsnum" where
  "laterBonus attacker weapon = Inr (getAttackBonus attacker weapon)"

section \<open>Attacks of enemies and companions (CombatService.executeEntityAttack)\<close>

text \<open>
  A target is read in two shapes: a wrapper whose \<^verbatim>\<open>character\<close> field holds the
  character (\<open>target_character\<close>), or the combatant itself with its own \<^verbatim>\<open>ac\<close>.
  \<^verbatim>\<open>addCombatMessage(text, type)\<close> appends to the combat log; the second argument is
  optional.
\<close>

record target = character +
  target_character :: "character option"

record attack_outcome =
  success :: bool
  outcome_damage :: int
  critical :: "bool option"

type_synonym combat_log = "(narrative \<times> string option) list"

text \<open>
  \<^verbatim>\<open>isNaN(attackBonus)\<close> returns the failure after the d20 has been rolled.
  \<^verbatim>\<open>isNaN(targetAC)\<close> holds when a wrapped character has no \<^verbatim>\<open>ac\<close>; for an
  unwrapped target \<^verbatim>\<open>target.ac || 10\<close> always is a number.
\<close>

definition executeEntityAttack ::
  "random \<Rightarrow> character option \<Rightarrow> attack option \<Rightarrow> target option \<Rightarrow> combat_log \<times> nat
     \<Rightarrow> attack_outcome \<times> combat_log \<times> nat" where
  "executeEntityAttack rnd attackerArg attackArg targetArg st =
     (let (entries, k) = st;
          failure = \<lparr>success = False, outcome_damage = 0, critical = None\<rparr>
      in case (attackerArg, attackArg, targetArg) of
           (Some attacker, Some atk, Some tgt) \<Rightarrow>
             if (case target_character tgt of Some c \<Rightarrow> currentHP c \<le> 0 | None \<Rightarrow> False)
             then (failure, entries @ [(AlreadyFallenText (name attacker) (name tgt), None)], k)
             else
               (let (attackRoll, k1) = rollD20 rnd k
                in case getAttackBonus attacker atk of
                     NaN \<Rightarrow> (failure, entries, k1)
                   | Num bonus \<Rightarrow>
               (let totalAttack = attackRoll + bonus;
                    criticalHit = (attackRoll = 20);
                    targetAC = (case target_character tgt of
                                  Some c \<Rightarrow> ac c
                                | None \<Rightarrow> (case ac tgt of
                                             Some a \<Rightarrow> if a \<noteq> 0 then Some a else Some 10
                                           | None \<Rightarrow> Some 10))
                in case targetAC of
                     None \<Rightarrow> (failure, entries, k1)
                   | Some targetAC' \<Rightarrow>
                       if totalAttack \<ge> targetAC' \<or> criticalHit
                       then
                         (let (rolled, k2) =
                                (case damageDice atk of
                                   Some (c # cs) \<Rightarrow>
                                     (let (d, k') = rollDamage rnd (c # cs) k1
                                      in (d + (case damageBonus atk of Some b \<Rightarrow> b | None \<Rightarrow> 0), k'))
                                 | _ \<Rightarrow>
                                     (case damage atk of
                                        Some (c # cs) \<Rightarrow> rollDamage rnd (c # cs) k1
                                      | _ \<Rightarrow> (1, k1)))
                          in if criticalHit
                             then (let doubled = rolled * 2
                                   in (\<lparr>success = True, outcome_damage = doubled, critical = Some True\<rparr>,
                                       entries @ [(EntityCriticalText (name attacker) (attack_name atk)
                                                 doubled (name tgt), Some ''critical'')],
                                       k2))
                             else (\<lparr>success = True, outcome_damage = rolled, critical = Some False\<rparr>,
                                   entries @ [(EntityHitText (name attacker) (attack_name atk)
                                             rolled (name tgt),
                                           Some (if entity_type attacker = Some ''enemy''
                                                 then ''enemy-hit'' else ''companion-hit''))],
                                   k2))
                       else (failure,
                             entries @ [(EntityMissText (name attacker) (name tgt) (attack_name atk)
                                       totalAttack targetAC', Some ''miss'')],
                             k1)))
         | _ \<Rightarrow> (failure, entries, k))"

section \<open>Initiative order (CombatService.rollInitiative)\<close>

text \<open>
  \<^verbatim>\<open>this.rollD20() + getModifier(c.stats.dexterite)\<close>, written three times in the
  source. The die is rolled first; reading \<^verbatim>\<open>dexterite\<close> of an absent \<^verbatim>\<open>stats\<close>
  raises a TypeError, and an absent \<^verbatim>\<open>dexterite\<close> gives \<^verbatim>\<open>NaN\<close>.
\<close>

definition initiativeRoll :: "random \<Rightarrow> 'a character_scheme \<Rightarrow> nat \<Rightarrow> error + int \<times> nat" where
  "initiativeRoll rnd c k =
     (let (roll, k') = rollD20 rnd k
      in case stats c of
           None \<Rightarrow> Inl TypeError
         | Some st \<Rightarrow>
             (case st ''dexterite'' of
                None \<Rightarrow> Inl NotANumber
              | Some dex \<Rightarrow> Inr (roll + getModifier dex, k')))"

text \<open>
  The comparison function given to \<^verbatim>\<open>sort\<close>. Every combatant it meets has an
  initiative (set by \<^verbatim>\<open>rollInitiative\<close>); the last case of the difference is there
  for totality only.
\<close>

definition compareInitiative :: "character \<Rightarrow> character \<Rightarrow> int" where
  "compareInitiative a b =
     (if initiative b = initiative a
      then (if entity_type a = Some ''player'' then - 1
            else if entity_type b = Some ''player'' then 1
            else if entity_type a = Some ''companion'' then - 1
            else if entity_type b = Some ''companion'' then 1
            else 0)
      else (case (initiative b, initiative a) of
              (Some ib, Some ia) \<Rightarrow> ib - ia
            | _ \<Rightarrow> 0))"

text \<open>
  \<^verbatim>\<open>Array.prototype.sort(compare)\<close>. ECMAScript requires the sort to be stable and,
  for a consistent comparison function, to return the elements in the order of that
  function; the result is then unique, and it is the one insertion sort computes: an
  element goes in front of the first later element it does not compare greater than.
\<close>

fun insertSorted :: "('a \<Rightarrow> 'a \<Rightarrow> int) \<Rightarrow> 'a \<Rightarrow> 'a list \<Rightarrow> 'a list" where
  "insertSorted compare x [] = [x]"
| "insertSorted compare x (y # ys) =
     (if compare x y \<le> 0 then x # y # ys else y # insertSorted compare x ys)"

definition sortBy :: "('a \<Rightarrow> 'a \<Rightarrow> int) \<Rightarrow> 'a list \<Rightarrow> 'a list" where
  "sortBy compare xs = foldr (insertSorted compare) xs []"

text \<open>\<^verbatim>\<open>enemies.forEach(enemy => combatants.push({...enemy, initiative: enemyInit}))\<close>\<close>

fun pushEnemies ::
  "random \<Rightarrow> character list \<Rightarrow> character list \<times> nat \<Rightarrow> error + character list \<times> nat" where
  "pushEnemies rnd [] st = Inr st"
| "pushEnemies rnd (enemy # enemies) (combatants, k) =
     (case initiativeRoll rnd enemy k of
        Inl e \<Rightarrow> Inl e
      | Inr (enemyInit, k') \<Rightarrow>
          pushEnemies rnd enemies (combatants @ [enemy\<lparr>initiative := Some enemyInit\<rparr>], k'))"

definition rollInitiative ::
  "random \<Rightarrow> character option \<Rightarrow> character option \<Rightarrow> character list \<Rightarrow> nat
     \<Rightarrow> error + character list \<times> nat" where
  "rollInitiative rnd playerCharacter playerCompanion enemies k =
     (case playerCharacter of
        None \<Rightarrow> Inl PlayerRequired
      | Some player \<Rightarrow>
          if stats player = None then Inl PlayerRequired
          else
            (case initiativeRoll rnd player k of
               Inl e \<Rightarrow> Inl e
             | Inr (playerInit, k1) \<Rightarrow>
                 (let combatants =
                        [player\<lparr>entity_id := Some ''player'', entity_type := Some ''player'',
                                initiative := Some playerInit, isAlive := Some True\<rparr>]
                  in case (case playerCompanion of
                             None \<Rightarrow> Inr (combatants, k1)
                           | Some companion \<Rightarrow>
                               (case initiativeRoll rnd companion k1 of
                                  Inl e \<Rightarrow> Inl e
                                | Inr (companionInit, k2) \<Rightarrow>
                                    Inr (combatants @
                                           [companion\<lparr>entity_id := Some ''companion'',
                                                      entity_type := Some ''companion'',
                                                      initiative := Some companionInit,
                                                      isAlive := Some True\<rparr>],
                                         k2))) of
                       Inl e \<Rightarrow> Inl e
                     | Inr st \<Rightarrow>
                         (case pushEnemies rnd enemies st of
                            Inl e \<Rightarrow> Inl e
                          | Inr (unsorted, k3) \<Rightarrow>
                              Inr (sortBy compareInitiative unsorted, k3)))))"

section \<open>Enemy instances (CombatService.createEnemiesFromEncounter)\<close>

text \<open>
  An encounter lists groups \<^verbatim>\<open>{type, count}\<close> under \<^verbatim>\<open>enemies\<close>. The registry \<^verbatim>\<open>enemyTemplates\<close>
  (\<^verbatim>\<open>data/enemies\<close>, not among the sources) is a parameter: a dictionary from the
  type key to a template. A template is an object whose fields the code defaults one by
  one, so each is optional here.
\<close>

record encounter =
  encounter_type :: string
  encounter_count :: int

record encounterData =
  encounter_enemies :: "encounter list option"

record enemy_template =
  template_name :: string
  template_level :: "int option"
  template_currentHP :: "int option"
  template_maxHP :: "int option"
  template_ac :: "int option"
  template_stats :: "stats option"
  template_attacks :: "attack list option"
  template_image :: "string option"

text \<open>The decimal digits of a number, as a template string prints it.\<close>

fun showNat :: "nat \<Rightarrow> string" where
  "showNat n =
     (if n < 10 then [''0123456789'' ! n]
      else showNat (n div 10) @ [''0123456789'' ! (n mod 10)])"

declare showNat.simps [simp del]

text \<open>
  The object built by the callback of \<^verbatim>\<open>map\<close> for the instance \<open>index\<close> of the group
  \<open>encounterIndex\<close>. Fields the template does not give stay absent.
\<close>

definition enemyInstance :: "enemy_template \<Rightarrow> encounter \<Rightarrow> nat \<Rightarrow> nat \<Rightarrow> character" where
  "enemyInstance template enc encounterIndex index =
     \<lparr>entity_id = Some (encounter_type enc @ ''_'' @ showNat encounterIndex @ ''_'' @ showNat index),
      name = (if encounter_count enc > 1 then template_name template @ '' '' @ showNat (index + 1)
              else template_name template),
      entity_type = Some ''enemy'',
      level = template_level template,
      currentHP = (case template_currentHP template of
                     Some hp \<Rightarrow> hp
                   | None \<Rightarrow> (case template_maxHP template of Some hp \<Rightarrow> hp | None \<Rightarrow> 10)),
      maxHP = (case template_maxHP template of Some hp \<Rightarrow> hp | None \<Rightarrow> 10),
      ac = Some (case template_ac template of Some a \<Rightarrow> a | None \<Rightarrow> 10),
      stats = Some (case template_stats template of Some st \<Rightarrow> st | None \<Rightarrow> Map.empty),
      attacks = (case template_attacks template of Some as \<Rightarrow> as | None \<Rightarrow> []),
      image = (case template_image template of Some i \<Rightarrow> i | None \<Rightarrow> []),
      hitDice = None, hitDiceType = None, inventory = None, initiative = None,
      isAlive = Some True\<rparr>"

text \<open>
  The callback of \<^verbatim>\<open>flatMap\<close> for one group. \<^verbatim>\<open>Array(count)\<close> raises a RangeError
  unless the count is an array length, an integer from \<open>0\<close> to \<open>2 ^ 32 - 1\<close>.
\<close>

definition expandGroup ::
  "(string \<rightharpoonup> enemy_template) \<Rightarrow> encounter \<Rightarrow> nat \<Rightarrow> error + character list" where
  "expandGroup enemyTemplates enc encounterIndex =
     (case enemyTemplates (encounter_type enc) of
        None \<Rightarrow> Inr []
      | Some template \<Rightarrow>
          if encounter_count enc < 0 \<or> encounter_count enc \<ge> 2 ^ 32 then Inl RangeError
          else Inr (map (enemyInstance template enc encounterIndex) [0..<nat (encounter_count enc)]))"

fun flatMapGroups ::
  "(string \<rightharpoonup> enemy_template) \<Rightarrow> encounter list \<Rightarrow> nat \<Rightarrow> error + character list" where
  "flatMapGroups enemyTemplates [] encounterIndex = Inr []"
| "flatMapGroups enemyTemplates (enc # rest) encounterIndex =
     (case expandGroup enemyTemplates enc encounterIndex of
        Inl e \<Rightarrow> Inl e
      | Inr instances \<Rightarrow>
          (case flatMapGroups enemyTemplates rest (encounterIndex + 1) of
             Inl e \<Rightarrow> Inl e
           | Inr others \<Rightarrow> Inr (instances @ others)))"

definition createEnemiesFromEncounter ::
  "(string \<rightharpoonup> enemy_template) \<Rightarrow> encounterData option \<Rightarrow> error + character list" where
  "createEnemiesFromEncounter enemyTemplates encounterDataArg =
     (case encounterDataArg of
        None \<Rightarrow> Inl NoEnemiesDefined
      | Some data \<Rightarrow>
          (case encounter_enemies data of
             None \<Rightarrow> Inl NoEnemiesDefined
           | Some [] \<Rightarrow> Inl NoEnemiesDefined
           | Some groups \<Rightarrow> flatMapGroups enemyTemplates groups 0))"

section \<open>The character store (stores/characterStore)\<close>

text \<open>
  The part of the store's state the healing actions read and write.
  \<^verbatim>\<open>set(partial)\<close> replaces the fields the partial state names and keeps the others;
  \<^verbatim>\<open>syncCharacter\<close> makes \<^verbatim>\<open>selectedCharacter\<close> follow \<^verbatim>\<open>playerCharacter\<close>.
\<close>

record store =
  playerCharacter :: "character option"
  playerCompanion :: "character option"
  selectedCharacter :: "character option"

definition setCharacter :: "string \<Rightarrow> character \<Rightarrow> store \<Rightarrow> store" where
  "setCharacter targetCharacter updatedCharacter state =
     (if targetCharacter = ''player''
      then state\<lparr>playerCharacter := Some updatedCharacter,
                 selectedCharacter := Some updatedCharacter\<rparr>
      else state\<lparr>playerCompanion := Some updatedCharacter\<rparr>)"

definition targetOf :: "string \<Rightarrow> store \<Rightarrow> character option" where
  "targetOf targetCharacter state =
     (if targetCharacter = ''player'' then playerCharacter state else playerCompanion state)"

text \<open>
  \<^verbatim>\<open>spendHitDie\<close>. The comparison \<^verbatim>\<open>character.hitDice <= 0\<close> is false for an absent
  \<^verbatim>\<open>hitDice\<close>, and \<^verbatim>\<open>character.hitDice - 1\<close> is then \<^verbatim>\<open>NaN\<close>; so is the
  modifier of an absent \<^verbatim>\<open>constitution\<close>.
\<close>

definition spendHitDie :: "random \<Rightarrow> string \<Rightarrow> store \<times> nat \<Rightarrow> error + store \<times> nat" where
  "spendHitDie rnd targetCharacter st =
     (let (state, k) = st
      in case targetOf targetCharacter state of
           None \<Rightarrow> Inr (state, k)
         | Some c \<Rightarrow>
             if (case hitDice c of Some h \<Rightarrow> h \<le> 0 | None \<Rightarrow> False) then Inr (state, k)
             else if currentHP c \<ge> maxHP c then Inr (state, k)
             else
               (let hitDieSize = (case hitDiceType c of
                                    Some t \<Rightarrow> if t \<noteq> 0 then t else 8
                                  | None \<Rightarrow> 8)
                in case stats c of
                     None \<Rightarrow> Inl TypeError
                   | Some abilities \<Rightarrow>
                       (case abilities ''constitution'' of
                          None \<Rightarrow> Inl NotANumber
                        | Some con \<Rightarrow>
                            (let constitutionModifier = (con - 10) div 2;
                                 roll = rollDie (rnd k) hitDieSize;
                                 healing = max 1 (roll + constitutionModifier);
                                 newHP = min (maxHP c) (currentHP c + healing)
                             in case hitDice c of
                                  None \<Rightarrow> Inl NotANumber
                                | Some h \<Rightarrow>
                                    Inr (setCharacter targetCharacter
                                           (c\<lparr>currentHP := newHP, hitDice := Some (h - 1)\<rparr>) state,
                                         k + 1)))))"

text \<open>\<^verbatim>\<open>item.id || item.name || item.nom\<close>: the first that is a non-empty string, else the last.\<close>

definition truthy :: "string option \<Rightarrow> bool" where
  "truthy s = (s \<noteq> None \<and> s \<noteq> Some [])"

definition itemKey :: "item \<Rightarrow> string option" where
  "itemKey i =
     (if truthy (item_id i) then item_id i
      else if truthy (item_name i) then item_name i
      else item_nom i)"

fun findIndex :: "('a \<Rightarrow> bool) \<Rightarrow> 'a list \<Rightarrow> nat option" where
  "findIndex P [] = None"
| "findIndex P (x # xs) =
     (if P x then Some 0 else map_option Suc (findIndex P xs))"

definition removeItemFromInventory :: "string \<Rightarrow> string \<Rightarrow> int \<Rightarrow> store \<Rightarrow> store" where
  "removeItemFromInventory itemId targetCharacter quantityToRemove state =
     (case targetOf targetCharacter state of
        None \<Rightarrow> state
      | Some c \<Rightarrow>
          (let currentInventory = (case inventory c of Some items \<Rightarrow> items | None \<Rightarrow> [])
           in case findIndex (\<lambda>i. itemKey i = Some itemId) currentInventory of
                None \<Rightarrow> state
              | Some itemIndex \<Rightarrow>
                  (let it = currentInventory ! itemIndex;
                       currentQuantity = (case quantity it of
                                            Some q \<Rightarrow> if q \<noteq> 0 then q else 1
                                          | None \<Rightarrow> 1);
                       newInventory =
                         (if currentQuantity \<le> quantityToRemove
                          then take itemIndex currentInventory @ drop (Suc itemIndex) currentInventory
                          else currentInventory
                                 [itemIndex := it\<lparr>quantity := Some (currentQuantity - quantityToRemove)\<rparr>])
                   in setCharacter targetCharacter (c\<lparr>inventory := Some newInventory\<rparr>) state)))"

text \<open>
  The registry \<^verbatim>\<open>items\<close> (\<^verbatim>\<open>data/items\<close>, not among the sources) is a parameter.
  An entry may carry a \<^verbatim>\<open>use\<close> function from a character to the updated character,
  which may throw; its \<^verbatim>\<open>message\<close> is taken as the string it is or returns.
\<close>

record item_data =
  data_use :: "(character \<Rightarrow> error + character) option"
  data_type :: "string option"
  data_message :: string

datatype use_message =
    CharacterNotFound
  | ItemNotInInventory
  | ItemUsed "string option"
  | Recovered int
  | CannotBeUsed
  | UseError error
  | DataMessage string

record use_result =
  use_success :: bool
  use_message :: use_message

text \<open>
  \<^verbatim>\<open>items[itemId] || items[item.id] || items[item.name] || items[item.nom]\<close>; an
  entry is an object, so the first one found is taken.
\<close>

definition lookupItemData :: "(string \<rightharpoonup> item_data) \<Rightarrow> string \<Rightarrow> item \<Rightarrow> item_data option" where
  "lookupItemData items itemId it =
     (let entry = (\<lambda>key. case key of Some k \<Rightarrow> items k | None \<Rightarrow> None)
      in case items itemId of
           Some d \<Rightarrow> Some d
         | None \<Rightarrow>
             (case entry (item_id it) of
                Some d \<Rightarrow> Some d
              | None \<Rightarrow>
                  (case entry (item_name it) of
                     Some d \<Rightarrow> Some d
                   | None \<Rightarrow> entry (item_nom it))))"

text \<open>
  One step of \<^verbatim>\<open>item.effects.forEach\<close>. The state is \<^verbatim>\<open>updatedCharacter\<close> and
  \<^verbatim>\<open>message\<close>; a heal effect is computed from the hit points of \<^verbatim>\<open>character\<close>, the
  character as it was before the item was used.
\<close>

definition applyEffect ::
  "character \<Rightarrow> effect \<Rightarrow> character \<times> use_message \<Rightarrow> character \<times> use_message" where
  "applyEffect c e st =
     (let (updatedCharacter, msg) = st
      in if effect_type e = ''heal''
         then (let healAmount = effect_value e
               in (updatedCharacter\<lparr>currentHP := min (maxHP c) (currentHP c + healAmount)\<rparr>,
                   Recovered healAmount))
         else (updatedCharacter, msg))"

definition useItem ::
  "(string \<rightharpoonup> item_data) \<Rightarrow> string \<Rightarrow> string \<Rightarrow> store \<Rightarrow> error + use_result \<times> store" where
  "useItem items itemId targetCharacter state =
     (case targetOf targetCharacter state of
        None \<Rightarrow> Inr (\<lparr>use_success = False, use_message = CharacterNotFound\<rparr>, state)
      | Some c \<Rightarrow>
          (case inventory c of
             None \<Rightarrow> Inl TypeError
           | Some owned \<Rightarrow>
               (case find (\<lambda>i. itemKey i = Some itemId) owned of
                  None \<Rightarrow> Inr (\<lparr>use_success = False, use_message = ItemNotInInventory\<rparr>, state)
                | Some it \<Rightarrow>
                    (case (case lookupItemData items itemId it of
                             Some itemData \<Rightarrow>
                               (case data_use itemData of
                                  Some f \<Rightarrow> Some (itemData, f)
                                | None \<Rightarrow> None)
                           | None \<Rightarrow> None) of
                       Some (itemData, f) \<Rightarrow>
                         (case f c of
                            Inl e \<Rightarrow> Inr (\<lparr>use_success = False, use_message = UseError e\<rparr>, state)
                          | Inr updatedCharacter \<Rightarrow>
                              (let state1 =
                                     (if targetCharacter = ''player''
                                      then state\<lparr>playerCharacter := Some updatedCharacter,
                                                 selectedCharacter := Some updatedCharacter\<rparr>
                                      else state\<lparr>playerCompanion := Some updatedCharacter\<rparr>);
                                   state2 =
                                     (if data_type itemData = Some ''consumable''
                                      then removeItemFromInventory itemId targetCharacter 1 state1
                                      else state1)
                               in Inr (\<lparr>use_success = True,
                                         use_message = DataMessage (data_message itemData)\<rparr>,
                                       state2)))
                     | None \<Rightarrow>
                         (case effects it of
                            None \<Rightarrow> Inr (\<lparr>use_success = False, use_message = CannotBeUsed\<rparr>, state)
                          | Some effs \<Rightarrow>
                              (let (updatedCharacter, msg) =
                                     foldl (\<lambda>st e. applyEffect c e st)
                                       (c, ItemUsed (if truthy (item_name it) then item_name it
                                                     else item_nom it))
                                       effs;
                                   state1 =
                                     (if targetCharacter = ''player''
                                      then state\<lparr>playerCharacter := Some updatedCharacter,
                                                 selectedCharacter := Some updatedCharacter\<rparr>
                                      else state\<lparr>playerCompanion := Some updatedCharacter\<rparr>);
                                   state2 =
                                     (if consumable it \<or> item_type it = Some ''consumable''
                                      then removeItemFromInventory itemId targetCharacter 1 state1
                                      else state1)
                               in Inr (\<lparr>use_success = True, use_message = msg\<rparr>, state2)))))))"

section \<open>The claims' own words\<close>

text \<open>
  The definitions of this section follow the wording of the specification, not the code;
  the theorems compare the code with them.

  The proficiency bonus: \<^verbatim>\<open>ceil(level / 4) + 1\<close>, 2 when the level is absent.
\<close>

definition specProficiencyBonus :: "'a character_scheme \<Rightarrow> int" where
  "specProficiencyBonus c =
     (case level c of Some l \<Rightarrow> \<lceil>(of_int l :: real) / 4\<rceil> + 1 | None \<Rightarrow> 2)"

text \<open>
  The same with JavaScript's reading of absence: a level of 0 counts as absent, and so
  does a stat name that is the empty string. The governing stat is \<^verbatim>\<open>attack.stat\<close>
  if set, else dexterity when the attack is ranged or has a range above 1, else strength.
\<close>

definition proficiencyBonusOf :: "'a character_scheme \<Rightarrow> int" where
  "proficiencyBonusOf c =
     (case level c of
        Some l \<Rightarrow> if l = 0 then 2 else \<lceil>(of_int l :: real) / 4\<rceil> + 1
      | None \<Rightarrow> 2)"

definition governingStat :: "attack \<Rightarrow> string" where
  "governingStat w =
     (case weapon_stat w of
        Some (c # cs) \<Rightarrow> c # cs
      | _ \<Rightarrow>
          if weapon_category w = Some ''ranged'' \<or> weapon_type w = Some ''ranged''
             \<or> (case weapon_range w of Some r \<Rightarrow> r > 1 | None \<Rightarrow> False)
          then ''dexterite'' else ''force'')"

text \<open>
  The stat of the shorter revision: dexterity when the range is above 5, else strength.
\<close>

definition earlierStat :: "attack \<Rightarrow> string" where
  "earlierStat w =
     (if (case weapon_range w of Some r \<Rightarrow> r > 5 | None \<Rightarrow> False)
      then ''dexterite'' else ''force'')"

text \<open>
  The pattern \<^verbatim>\<open>\d+d\d+(\+\d+)?\<close>: a descriptor matches it when somewhere in it a
  run of digits, the letter \<^verbatim>\<open>d\<close> and a run of digits follow one another (the bonus
  is optional, so it adds no condition).
\<close>

definition digits :: "string \<Rightarrow> bool" where
  "digits ds = (ds \<noteq> [] \<and> list_all isDigit ds)"

text \<open>
  The number that a run of decimal digits writes: each digit, by its position among the
  ten digits, times the power of ten of its place (the number of digits after it).
\<close>

definition digitOf :: "char \<Rightarrow> nat" where
  "digitOf c = length (takeWhile (\<lambda>d. d \<noteq> c) ''0123456789'')"

fun decimal :: "string \<Rightarrow> nat" where
  "decimal [] = 0"
| "decimal (c # cs) = digitOf c * 10 ^ length cs + decimal cs"

text \<open>
  Where the dice stand in a descriptor that matches: \<open>n\<close>, the letter \<^verbatim>\<open>d\<close> and
  \<open>m\<close> follow \<open>before\<close>, the run \<open>m\<close> ends where \<open>tail\<close> begins, and no
  other digits, \<^verbatim>\<open>d\<close>, digits begin further to the left.
\<close>

definition startsWithDigit :: "string \<Rightarrow> bool" where
  "startsWithDigit s = (case s of [] \<Rightarrow> False | c # cs \<Rightarrow> isDigit c)"

definition diceText :: "string \<Rightarrow> string \<Rightarrow> string \<Rightarrow> string \<Rightarrow> string \<Rightarrow> bool" where
  "diceText descriptor before n m tail =
     (descriptor = before @ n @ ''d'' @ m @ tail \<and> digits n \<and> digits m
      \<and> \<not> startsWithDigit tail
      \<and> (\<forall>pre n' m' rest.
             descriptor = pre @ n' @ ''d'' @ m' @ rest \<and> digits n' \<and> digits m'
             \<longrightarrow> length before \<le> length pre))"

definition matchesDicePattern :: "string \<Rightarrow> bool" where
  "matchesDicePattern s =
     (\<exists>before numDice dieSize rest.
        s = before @ numDice @ CHR ''d'' # dieSize @ rest \<and> digits numDice \<and> digits dieSize)"

text \<open>
  The initiative of a combatant who rolls with the \<open>k\<close>-th draw: the d20 plus the
  dexterity modifier. \<open>hasDexterity\<close> says that the combatant has ability scores with
  a dexterity among them.
\<close>

definition hasDexterity :: "'a character_scheme \<Rightarrow> bool" where
  "hasDexterity c = (case stats c of Some sc \<Rightarrow> sc ''dexterite'' \<noteq> None | None \<Rightarrow> False)"

definition initiativeOf :: "random \<Rightarrow> nat \<Rightarrow> 'a character_scheme \<Rightarrow> int" where
  "initiativeOf rnd k c = rollDie (rnd k) 20 + getModifier (the (the (stats c) ''dexterite''))"

text \<open>
  The combatants of an encounter before they are ordered: the player, tagged as such,
  the companion if there is one, and the enemies in the order given, each with the
  initiative of its own draw.
\<close>

definition entrants ::
  "random \<Rightarrow> character \<Rightarrow> character option \<Rightarrow> character list \<Rightarrow> nat \<Rightarrow> character list" where
  "entrants rnd p companion foes k =
     [p\<lparr>entity_id := Some ''player'', entity_type := Some ''player'',
        initiative := Some (initiativeOf rnd k p), isAlive := Some True\<rparr>]
     @ (case companion of
          None \<Rightarrow> []
        | Some c \<Rightarrow> [c\<lparr>entity_id := Some ''companion'', entity_type := Some ''companion'',
                       initiative := Some (initiativeOf rnd (k + 1) c), isAlive := Some True\<rparr>])
     @ map (\<lambda>(j, e). e\<lparr>initiative := Some (initiativeOf rnd j e)\<rparr>)
         (enumerate (k + 1 + (case companion of None \<Rightarrow> 0 | Some c \<Rightarrow> 1)) foes)"

text \<open>The fixed priority of the tie-break: player, then companion, then everyone else.\<close>

definition rank :: "character \<Rightarrow> nat" where
  "rank c =
     (if entity_type c = Some ''player'' then 0
      else if entity_type c = Some ''companion'' then 1
      else 2)"

text \<open>
  \<open>a\<close> may stand before \<open>b\<close> in the turn order: its initiative is higher, or it is the
  same and its priority is not lower.
\<close>

definition mayPrecede :: "character \<Rightarrow> character \<Rightarrow> bool" where
  "mayPrecede a b =
     (the (initiative a) > the (initiative b)
      \<or> (the (initiative a) = the (initiative b) \<and> rank a \<le> rank b))"

text \<open>
  The enemy groups of an encounter specification: none when the specification or its
  list is absent.
\<close>

definition groupsOf :: "encounterData option \<Rightarrow> encounter list" where
  "groupsOf spec =
     (case spec of
        None \<Rightarrow> []
      | Some d \<Rightarrow> (case encounter_enemies d of None \<Rightarrow> [] | Some groups \<Rightarrow> groups))"

text \<open>
  The groups whose type key the registry knows, each with its position in the
  specification, and the instances such a group stands for: as many as its count, cloned
  from its template.
\<close>

definition knownGroups ::
  "(string \<rightharpoonup> enemy_template) \<Rightarrow> encounter list \<Rightarrow> (nat \<times> encounter) list" where
  "knownGroups registry groups =
     filter (\<lambda>(j, g). registry (encounter_type g) \<noteq> None) (enumerate 0 groups)"

definition instancesOf :: "(string \<rightharpoonup> enemy_template) \<Rightarrow> nat \<times> encounter \<Rightarrow> character list" where
  "instancesOf registry jg =
     (case jg of
        (j, g) \<Rightarrow> map (enemyInstance (the (registry (encounter_type g))) g j)
                    [0..<nat (encounter_count g)])"

text \<open>
  The same order as a key: the negated initiative first, the priority second, compared
  lexicographically.
\<close>

definition initiativeKey :: "character \<Rightarrow> int \<times> nat" where
  "initiativeKey c = (- the (initiative c), rank c)"

text \<open>
  \<open>hasConstitution\<close> says that the character has ability scores with a constitution
  among them. \<open>itemInUse\<close> is the inventory entry \<^verbatim>\<open>useItem\<close> finds for an item key,
  and \<open>healsThroughEffects\<close> says of such an entry that the registry gives no
  \<^verbatim>\<open>use\<close> function for it, so that its \<^verbatim>\<open>effects\<close> are applied, and that none of
  its healing amounts is negative.
\<close>

definition hasConstitution :: "'a character_scheme \<Rightarrow> bool" where
  "hasConstitution c =
     (case stats c of Some sc \<Rightarrow> sc ''constitution'' \<noteq> None | None \<Rightarrow> False)"

definition itemInUse :: "string \<Rightarrow> character \<Rightarrow> item option" where
  "itemInUse itemId c =
     (case inventory c of
        None \<Rightarrow> None
      | Some owned \<Rightarrow> find (\<lambda>i. itemKey i = Some itemId) owned)"

definition healsThroughEffects :: "(string \<rightharpoonup> item_data) \<Rightarrow> string \<Rightarrow> item \<Rightarrow> bool" where
  "healsThroughEffects items itemId it =
     ((case lookupItemData items itemId it of
         Some d \<Rightarrow> data_use d = None
       | None \<Rightarrow> True)
      \<and> list_all (\<lambda>e. effect_type e \<noteq> ''heal'' \<or> 0 \<le> effect_value e)
            (case effects it of Some effs \<Rightarrow> effs | None \<Rightarrow> []))"

section \<open>Sample values\<close>

text \<open>Concrete characters, weapons and dice on which the theorems below are instantiated.\<close>

definition sampleCharacter :: character where
  "sampleCharacter =
     \<lparr>entity_id = None, name = ''Elarion'', entity_type = None, level = Some 5,
      currentHP = 10, maxHP = 24, ac = Some 15,
      stats = Some [''force'' \<mapsto> 16, ''dexterite'' \<mapsto> 14, ''constitution'' \<mapsto> 13],
      attacks = [], image = [], hitDice = Some 3, hitDiceType = Some 10,
      inventory = Some [], initiative = None, isAlive = None\<rparr>"

definition sampleEnemy :: character where
  "sampleEnemy =
     \<lparr>entity_id = Some ''gobelin_0_0'', name = ''Gobelin'', entity_type = Some ''enemy'',
      level = None, currentHP = 7, maxHP = 7, ac = Some 13,
      stats = Some [''force'' \<mapsto> 8, ''dexterite'' \<mapsto> 14, ''constitution'' \<mapsto> 10],
      attacks = [], image = [], hitDice = None, hitDiceType = None,
      inventory = None, initiative = None, isAlive = Some True\<rparr>"

definition sampleWeapon :: attack where
  "sampleWeapon =
     \<lparr>attack_name = ''Epee longue'', damage = Some ''1d8+2'', damageDice = None,
      damageBonus = None, attackBonus = None, weapon_stat = None, weapon_category = None,
      weapon_type = None, weapon_range = None\<rparr>"

text \<open>A source of chance whose every draw is the same fraction.\<close>

definition constantRandom :: "real \<Rightarrow> random" where
  "constantRandom r = (\<lambda>k. r)"

definition emptyResults :: results where
  "emptyResults = \<lparr>results_damage = [], results_effects = [], results_messages = []\<rparr>"

text \<open>
  Two targets for \<^verbatim>\<open>executeEntityAttack\<close>, both at 0 hit points: the combatant
  itself, as the turn order holds it, and a wrapper around the character.
\<close>

definition fallenCombatant :: target where
  "fallenCombatant =
     \<lparr>entity_id = Some ''player'', name = ''Elarion'', entity_type = Some ''player'',
      level = Some 5, currentHP = 0, maxHP = 24, ac = Some 15,
      stats = Some [''force'' \<mapsto> 16, ''dexterite'' \<mapsto> 14, ''constitution'' \<mapsto> 13],
      attacks = [], image = [], hitDice = Some 3, hitDiceType = Some 10,
      inventory = Some [], initiative = Some 12, isAlive = Some True,
      target_character = None\<rparr>"

definition fallenWrapped :: target where
  "fallenWrapped = fallenCombatant\<lparr>target_character := Some (sampleCharacter\<lparr>currentHP := 0\<rparr>)\<rparr>"

definition sampleTemplates :: "string \<rightharpoonup> enemy_template" where
  "sampleTemplates =
     [''gobelin'' \<mapsto>
        \<lparr>template_name = ''Gobelin'', template_level = None, template_currentHP = None,
         template_maxHP = Some 7, template_ac = Some 13,
         template_stats = Some [''force'' \<mapsto> 8, ''dexterite'' \<mapsto> 14, ''constitution'' \<mapsto> 10],
         template_attacks = None, template_image = None\<rparr>]"

definition sampleEncounter :: "encounterData option" where
  "sampleEncounter =
     Some \<lparr>encounter_enemies =
             Some [\<lparr>encounter_type = ''dragon'', encounter_count = 1\<rparr>,
                   \<lparr>encounter_type = ''gobelin'', encounter_count = 2\<rparr>]\<rparr>"

text \<open>Draws of which the third gives a 20 on the d20 and the others an 11.\<close>

definition sampleDraws :: random where
  "sampleDraws = (\<lambda>k. if k = 2 then 19 / 20 else 1 / 2)"

definition sampleFoes :: "character list" where
  "sampleFoes = [sampleEnemy, sampleEnemy\<lparr>entity_id := Some ''gobelin_0_1'', name := ''Gobelin 2''\<rparr>]"

text \<open>A store whose player carries a healing potion worth more than the missing hit points.\<close>

definition samplePotion :: item where
  "samplePotion =
     \<lparr>item_id = Some ''potionOfHealing'', item_name = Some ''Potion de soins'',
      item_nom = None, quantity = Some 2,
      effects = Some [\<lparr>effect_type = ''heal'', effect_value = 50\<rparr>],
      consumable = True, item_type = Some ''consumable''\<rparr>"

definition sampleStore :: store where
  "sampleStore =
     \<lparr>playerCharacter = Some (sampleCharacter\<lparr>inventory := Some [samplePotion]\<rparr>),
      playerCompanion = None,
      selectedCharacter = Some (sampleCharacter\<lparr>inventory := Some [samplePotion]\<rparr>)\<rparr>"

section \<open>Combat outcome\<close>

text \<open>
  Claim C1, as the code has it. \<^verbatim>\<open>checkCombatEnd\<close> returns \<^verbatim>\<open>'defeat'\<close> exactly when
  the player's hit points are at most 0 and there is no companion or the companion's are
  at most 0. The defeat test comes first, so \<^verbatim>\<open>'victory'\<close> is returned exactly when
  every enemy's hit points are at most 0 and the defeat condition does not hold, and
  \<^verbatim>\<open>null\<close> exactly when neither condition holds. The two outcomes are never both
  reported.
\<close>

theorem checkCombatEnd_outcome:
  "(checkCombatEnd player companion foes = Some ''defeat'' \<longleftrightarrow>
      currentHP player \<le> 0 \<and> (companion = None \<or> currentHP (the companion) \<le> 0))
   \<and> (checkCombatEnd player companion foes = Some ''victory'' \<longleftrightarrow>
        (\<forall>e \<in> set foes. currentHP e \<le> 0)
        \<and> \<not> (currentHP player \<le> 0 \<and> (companion = None \<or> currentHP (the companion) \<le> 0)))
   \<and> (checkCombatEnd player companion foes = None \<longleftrightarrow>
        \<not> (\<forall>e \<in> set foes. currentHP e \<le> 0)
        \<and> \<not> (currentHP player \<le> 0 \<and> (companion = None \<or> currentHP (the companion) \<le> 0)))
   \<and> \<not> (checkCombatEnd player companion foes = Some ''defeat''
          \<and> checkCombatEnd player companion foes = Some ''victory'')"
  by (cases companion)
     (auto simp: checkCombatEnd_def isDefeated_def Let_def list_all_iff)

theorem checkCombatEnd_outcome_witness:
  "checkCombatEnd sampleCharacter None [sampleEnemy\<lparr>currentHP := 0\<rparr>] = Some ''victory''"
  using checkCombatEnd_outcome [of sampleCharacter None "[sampleEnemy\<lparr>currentHP := 0\<rparr>]"]
  by (simp add: sampleCharacter_def sampleEnemy_def)

text \<open>
  The claim as stated gives \<^verbatim>\<open>'victory'\<close> whenever every enemy is down. With the player
  down as well and no companion, the code returns \<^verbatim>\<open>'defeat'\<close>.
\<close>

theorem checkCombatEnd_victory_counterexample:
  "\<not> (checkCombatEnd (sampleCharacter\<lparr>currentHP := 0\<rparr>) None [sampleEnemy\<lparr>currentHP := 0\<rparr>]
        = Some ''victory''
      \<longleftrightarrow> list_all (\<lambda>e. currentHP e \<le> 0) [sampleEnemy\<lparr>currentHP := 0\<rparr>])"
  by (simp add: checkCombatEnd_def isDefeated_def sampleCharacter_def sampleEnemy_def)

section \<open>Skipping defeated combatants\<close>

text \<open>
  Claim C2 at a turn order whose only combatant is alive and whose turn it is: the loop
  gives up on its first attempt, before it has looked at anyone, and returns \<^verbatim>\<open>null\<close>
  although a combatant with positive hit points is in the turn order.
\<close>

theorem skipToNextAliveCombatant_sole_survivor:
  "currentHP sampleCharacter > 0
   \<and> skipToNextAliveCombatant 0 [sampleCharacter] = None
   \<and> skipToNextAliveCombatant 0 [sampleCharacter, sampleEnemy\<lparr>currentHP := 0\<rparr>] = None"
  by (simp add: skipToNextAliveCombatant_def skip_loop.simps sampleCharacter_def sampleEnemy_def)

text \<open>
  What the loop does: an index it returns is in range and its combatant has positive hit
  points; and on a non-empty turn order it returns \<^verbatim>\<open>null\<close> exactly when the
  combatants at the \<open>length - 1\<close> positions after the current one have no hit points
  left. The combatant at the current position is never looked at.
\<close>

lemma skip_loop_sound:
  "skip_loop turnOrder nextIndex attempts = Some i \<Longrightarrow>
     i < length turnOrder \<and> currentHP (turnOrder ! i) > 0"
proof (induction turnOrder nextIndex attempts rule: skip_loop.induct)
  case (1 turnOrder nextIndex attempts)
  from "1.prems" have n: "attempts + 1 < length turnOrder"
    by (subst (asm) skip_loop.simps) (auto simp: Let_def split: if_splits)
  show ?case
  proof (cases "currentHP (turnOrder ! ((nextIndex + 1) mod length turnOrder)) > 0")
    case True
    with "1.prems" n have "i = (nextIndex + 1) mod length turnOrder"
      by (subst (asm) skip_loop.simps) (auto simp: Let_def split: if_splits)
    moreover from n have "0 < length turnOrder" by (cases turnOrder) auto
    ultimately show ?thesis using True by simp
  next
    case False
    with "1.prems" n have "skip_loop turnOrder ((nextIndex + 1) mod length turnOrder) (attempts + 1) = Some i"
      by (subst (asm) skip_loop.simps) (auto simp: Let_def split: if_splits)
    with "1.IH" [OF refl refl] False n show ?thesis by simp
  qed
qed

lemma skip_loop_None:
  "attempts < length turnOrder \<Longrightarrow>
   skip_loop turnOrder nextIndex attempts = None \<longleftrightarrow>
     (\<forall>j. 1 \<le> j \<and> j < length turnOrder - attempts \<longrightarrow>
          currentHP (turnOrder ! ((nextIndex + j) mod length turnOrder)) \<le> 0)"
proof (induction turnOrder nextIndex attempts rule: skip_loop.induct)
  case (1 turnOrder nextIndex attempts)
  let ?n = "length turnOrder"
  let ?next = "(nextIndex + 1) mod ?n"
  show ?case
  proof (cases "attempts + 1 \<ge> ?n")
    case True
    then have "skip_loop turnOrder nextIndex attempts = None"
      by (subst skip_loop.simps) (simp add: Let_def)
    moreover from True have "?n - attempts \<le> 1" by simp
    ultimately show ?thesis by auto
  next
    case more: False
    show ?thesis
    proof (cases "currentHP (turnOrder ! ?next) > 0")
      case True
      with more have "skip_loop turnOrder nextIndex attempts = Some ?next"
        by (subst skip_loop.simps) (simp add: Let_def)
      moreover from more True have "\<not> (\<forall>j. 1 \<le> j \<and> j < ?n - attempts \<longrightarrow>
          currentHP (turnOrder ! ((nextIndex + j) mod ?n)) \<le> 0)"
        by (auto intro!: exI [of _ 1])
      ultimately show ?thesis by simp
    next
      case False
      with more have step: "skip_loop turnOrder nextIndex attempts =
                             skip_loop turnOrder ?next (attempts + 1)"
        by (subst skip_loop.simps) (simp add: Let_def)
      from more have "attempts + 1 < ?n" by simp
      from "1.IH" [OF refl refl _ _ _ this] more False
      have ih: "skip_loop turnOrder ?next (attempts + 1) = None \<longleftrightarrow>
         (\<forall>j. 1 \<le> j \<and> j < ?n - (attempts + 1) \<longrightarrow>
              currentHP (turnOrder ! ((?next + j) mod ?n)) \<le> 0)"
        by simp
      have shift: "(?next + j) mod ?n = (nextIndex + (j + 1)) mod ?n" for j
      proof -
        have "(?next + j) mod ?n = (nextIndex + 1 + j) mod ?n"
          by (rule mod_add_left_eq)
        then show ?thesis by (simp add: add.commute)
      qed
      have "(\<forall>j. 1 \<le> j \<and> j < ?n - (attempts + 1) \<longrightarrow>
                currentHP (turnOrder ! ((nextIndex + (j + 1)) mod ?n)) \<le> 0)
            \<longleftrightarrow> (\<forall>j. 1 \<le> j \<and> j < ?n - attempts \<longrightarrow>
                currentHP (turnOrder ! ((nextIndex + j) mod ?n)) \<le> 0)"
        (is "?l \<longleftrightarrow> ?r")
      proof
        assume l: ?l
        show ?r
        proof (intro allI impI)
          fix j assume j: "1 \<le> j \<and> j < ?n - attempts"
          show "currentHP (turnOrder ! ((nextIndex + j) mod ?n)) \<le> 0"
          proof (cases "j = 1")
            case True
            with False show ?thesis by simp
          next
            case False
            with j have "1 \<le> j - 1 \<and> j - 1 < ?n - (attempts + 1)" by auto
            with l have "currentHP (turnOrder ! ((nextIndex + (j - 1 + 1)) mod ?n)) \<le> 0"
              by blast
            with j show ?thesis by simp
          qed
        qed
      next
        assume r: ?r
        show ?l
        proof (intro allI impI)
          fix j assume "1 \<le> j \<and> j < ?n - (attempts + 1)"
          then have "1 \<le> j + 1 \<and> j + 1 < ?n - attempts" by auto
          with r show "currentHP (turnOrder ! ((nextIndex + (j + 1)) mod ?n)) \<le> 0"
            by blast
        qed
      qed
      moreover have "skip_loop turnOrder ?next (attempts + 1) = None \<longleftrightarrow> ?l"
        using ih unfolding shift .
      ultimately show ?thesis unfolding step by blast
    qed
  qed
qed

theorem skipToNextAliveCombatant_behaviour:
  "(\<forall>i. skipToNextAliveCombatant currentTurn turnOrder = Some i \<longrightarrow>
        i < length turnOrder \<and> currentHP (turnOrder ! i) > 0)
   \<and> (turnOrder \<noteq> [] \<longrightarrow>
        (skipToNextAliveCombatant currentTurn turnOrder = None \<longleftrightarrow>
           (\<forall>j. 1 \<le> j \<and> j < length turnOrder \<longrightarrow>
                currentHP (turnOrder ! ((currentTurn + j) mod length turnOrder)) \<le> 0)))"
  using skip_loop_sound [of turnOrder currentTurn 0] skip_loop_None [of 0 turnOrder currentTurn]
  by (auto simp: skipToNextAliveCombatant_def)


theorem skipToNextAliveCombatant_behaviour_witness:
  "2 < length [sampleCharacter, sampleEnemy\<lparr>currentHP := 0\<rparr>, sampleEnemy]
   \<and> currentHP ([sampleCharacter, sampleEnemy\<lparr>currentHP := 0\<rparr>, sampleEnemy] ! 2) > 0
   \<and> skipToNextAliveCombatant 0 [sampleCharacter\<lparr>currentHP := 0\<rparr>, sampleEnemy\<lparr>currentHP := 0\<rparr>]
       = None"
proof -
  have found: "skipToNextAliveCombatant 0 [sampleCharacter, sampleEnemy\<lparr>currentHP := 0\<rparr>, sampleEnemy]
                 = Some 2"
    by (simp add: skipToNextAliveCombatant_def skip_loop.simps sampleEnemy_def)
  have dead: "\<forall>j. 1 \<le> j \<and> j < length [sampleCharacter\<lparr>currentHP := 0\<rparr>, sampleEnemy\<lparr>currentHP := 0\<rparr>]
      \<longrightarrow> currentHP ([sampleCharacter\<lparr>currentHP := 0\<rparr>, sampleEnemy\<lparr>currentHP := 0\<rparr>]
                      ! ((0 + j) mod length [sampleCharacter\<lparr>currentHP := 0\<rparr>, sampleEnemy\<lparr>currentHP := 0\<rparr>])) \<le> 0"
  proof (intro allI impI)
    fix j :: nat
    assume "1 \<le> j \<and> j < length [sampleCharacter\<lparr>currentHP := 0\<rparr>, sampleEnemy\<lparr>currentHP := 0\<rparr>]"
    then have "j = 1" by simp
    then show "currentHP ([sampleCharacter\<lparr>currentHP := 0\<rparr>, sampleEnemy\<lparr>currentHP := 0\<rparr>]
                      ! ((0 + j) mod length [sampleCharacter\<lparr>currentHP := 0\<rparr>, sampleEnemy\<lparr>currentHP := 0\<rparr>])) \<le> 0"
      by simp
  qed
  from skipToNextAliveCombatant_behaviour
         [of 0 "[sampleCharacter, sampleEnemy\<lparr>currentHP := 0\<rparr>, sampleEnemy]"] found
  have a: "2 < length [sampleCharacter, sampleEnemy\<lparr>currentHP := 0\<rparr>, sampleEnemy]
   \<and> currentHP ([sampleCharacter, sampleEnemy\<lparr>currentHP := 0\<rparr>, sampleEnemy] ! 2) > 0"
    by blast
  from skipToNextAliveCombatant_behaviour
         [of 0 "[sampleCharacter\<lparr>currentHP := 0\<rparr>, sampleEnemy\<lparr>currentHP := 0\<rparr>]"] dead
  have b: "skipToNextAliveCombatant 0 [sampleCharacter\<lparr>currentHP := 0\<rparr>, sampleEnemy\<lparr>currentHP := 0\<rparr>]
       = None"
    by blast
  from a b show ?thesis by blast
qed

section \<open>Damage rolls\<close>

text \<open>
  The loop of \<^verbatim>\<open>rollDamage\<close> adds one die per iteration, each from the next random
  draw, and a draw in \<open>[0, 1)\<close> gives a die between 1 and the number of sides.
\<close>

lemma rollDamage_loop_sum:
  "i \<le> n \<Longrightarrow> rollDamage_loop rnd n m i tot k =
     (tot + (\<Sum>j<n - i. rollDie (rnd (k + j)) (int m)), k + (n - i))"
proof (induction rnd n m i tot k rule: rollDamage_loop.induct)
  case (1 rnd n m i tot k)
  show ?case
  proof (cases "i < n")
    case True
    then have step: "n - i = Suc (n - (i + 1))" by simp
    have "rollDamage_loop rnd n m i tot k =
            rollDamage_loop rnd n m (i + 1) (tot + rollDie (rnd k) (int m)) (k + 1)"
      using True by (subst rollDamage_loop.simps) simp
    also have "\<dots> = (tot + rollDie (rnd k) (int m)
                         + (\<Sum>j<n - (i + 1). rollDie (rnd (k + 1 + j)) (int m)),
                       k + 1 + (n - (i + 1)))"
      using "1.IH" True by simp
    finally show ?thesis
      unfolding step by (simp add: sum.lessThan_Suc_shift del: sum.lessThan_Suc)
  next
    case False
    with "1.prems" have "i = n" by simp
    then show ?thesis by (subst rollDamage_loop.simps) simp
  qed
qed

lemma rollDie_range:
  assumes "0 \<le> r" "r < 1" "1 \<le> sides"
  shows "1 \<le> rollDie r sides \<and> rollDie r sides \<le> sides"
proof -
  have "0 \<le> r * of_int sides" using assms by simp
  then have lo: "0 \<le> \<lfloor>r * of_int sides\<rfloor>" by simp
  have "r * of_int sides < of_int sides" using assms by simp
  then have "\<lfloor>r * of_int sides\<rfloor> < sides" by (simp add: floor_less_iff)
  with lo show ?thesis by (simp add: rollDie_def)
qed

theorem rollDie_range_witness:
  "1 \<le> rollDie (19 / 20) 20 \<and> rollDie (19 / 20) 20 \<le> 20"
  using rollDie_range [of "19 / 20" 20] by simp

lemma rollDamage_matched:
  "damageMatch descriptor = Some (numDice, dieSize, bonus) \<Longrightarrow>
   rollDamage rnd descriptor k =
     ((\<Sum>i<parseInt numDice. rollDie (rnd (k + i)) (int (parseInt dieSize)))
        + (case bonus of Some b \<Rightarrow> int (parseInt b) | None \<Rightarrow> 0),
      k + parseInt numDice)"
  by (simp add: rollDamage_def rollDamage_loop_sum)

lemma damageMatch_2d6_3: "damageMatch ''2d6+3'' = Some (''2'', ''6'', Some ''3'')"
  by (simp add: matchHere_def isDigit_def)

lemma parseInt_digits: "parseInt ''2'' = 2" "parseInt ''6'' = 6" "parseInt ''3'' = 3"
  by (simp_all add: parseInt_def digitValue_def)

text \<open>
  The search of \<^verbatim>\<open>String.match\<close> finds a match exactly in the descriptors that
  match the pattern, and what it captures are runs of digits.
\<close>

lemma not_digit_d: "\<not> isDigit CHR ''d''"
  by (simp add: isDigit_def)

lemma matchHere_iff:
  "matchHere t \<noteq> None \<longleftrightarrow>
     (\<exists>numDice dieSize rest. t = numDice @ CHR ''d'' # dieSize @ rest
        \<and> digits numDice \<and> digits dieSize)"
proof
  assume m: "matchHere t \<noteq> None"
  let ?n = "takeWhile isDigit t" and ?r = "dropWhile isDigit t"
  from m have n: "?n \<noteq> []"
    by (auto simp: matchHere_def Let_def split: if_splits)
  from m n obtain r2 where r: "?r = CHR ''d'' # r2"
    by (auto simp: matchHere_def Let_def split: if_splits list.splits)
  let ?m = "takeWhile isDigit r2"
  from m n r have m2: "?m \<noteq> []"
    by (auto simp: matchHere_def Let_def split: if_splits list.splits)
  have "t = ?n @ ?r" by simp
  also have "\<dots> = ?n @ CHR ''d'' # ?m @ dropWhile isDigit r2"
    by (simp add: r)
  finally have "t = ?n @ CHR ''d'' # ?m @ dropWhile isDigit r2" .
  moreover have "digits ?n" "digits ?m"
    using n m2 by (auto simp: digits_def list_all_iff dest: set_takeWhileD)
  ultimately show "\<exists>numDice dieSize rest. t = numDice @ CHR ''d'' # dieSize @ rest
        \<and> digits numDice \<and> digits dieSize"
    by blast
next
  assume "\<exists>numDice dieSize rest. t = numDice @ CHR ''d'' # dieSize @ rest
        \<and> digits numDice \<and> digits dieSize"
  then obtain n m rest where t: "t = n @ CHR ''d'' # m @ rest"
    and n: "digits n" and m: "digits m"
    by blast
  from n have tn: "takeWhile isDigit t = n" "dropWhile isDigit t = CHR ''d'' # m @ rest"
    unfolding t by (simp_all add: digits_def list_all_iff not_digit_d)
  from m have tm: "takeWhile isDigit (m @ rest) = m @ takeWhile isDigit rest"
    by (simp add: digits_def list_all_iff)
  from n m show "matchHere t \<noteq> None"
    by (auto simp: matchHere_def Let_def tn tm digits_def split: list.splits)
qed

lemma damageMatch_iff: "damageMatch s \<noteq> None \<longleftrightarrow> matchesDicePattern s"
proof (induction s)
  case Nil
  then show ?case by (simp add: matchesDicePattern_def)
next
  case (Cons c s)
  have here: "matchesDicePattern (c # s) \<longleftrightarrow> matchHere (c # s) \<noteq> None \<or> matchesDicePattern s"
  proof
    assume "matchesDicePattern (c # s)"
    then obtain before n m rest where cs: "c # s = before @ n @ CHR ''d'' # m @ rest"
      and nm: "digits n" "digits m"
      by (auto simp: matchesDicePattern_def)
    show "matchHere (c # s) \<noteq> None \<or> matchesDicePattern s"
    proof (cases before)
      case Nil
      with cs nm have "\<exists>numDice dieSize rest. c # s = numDice @ CHR ''d'' # dieSize @ rest
          \<and> digits numDice \<and> digits dieSize"
        by auto
      then have "matchHere (c # s) \<noteq> None" by (simp only: matchHere_iff)
      then show ?thesis by simp
    next
      case (Cons b before')
      with cs have "s = before' @ n @ CHR ''d'' # m @ rest" by simp
      with nm have "matchesDicePattern s" unfolding matchesDicePattern_def by blast
      then show ?thesis by simp
    qed
  next
    assume "matchHere (c # s) \<noteq> None \<or> matchesDicePattern s"
    then show "matchesDicePattern (c # s)"
    proof
      assume "matchHere (c # s) \<noteq> None"
      then obtain n m rest where "c # s = n @ CHR ''d'' # m @ rest" "digits n" "digits m"
        unfolding matchHere_iff by blast
      then have "c # s = [] @ n @ CHR ''d'' # m @ rest \<and> digits n \<and> digits m" by simp
      then show ?thesis unfolding matchesDicePattern_def by blast
    next
      assume "matchesDicePattern s"
      then obtain before n m rest where "s = before @ n @ CHR ''d'' # m @ rest"
        "digits n" "digits m"
        by (auto simp: matchesDicePattern_def)
      then have "c # s = (c # before) @ n @ CHR ''d'' # m @ rest" by simp
      with \<open>digits n\<close> \<open>digits m\<close> show ?thesis unfolding matchesDicePattern_def by blast
    qed
  qed
  show ?case
    using Cons.IH by (auto simp: here split: option.splits)
qed

lemma damageMatch_None_iff: "damageMatch s = None \<longleftrightarrow> \<not> matchesDicePattern s"
  using damageMatch_iff [of s] by blast

lemma damageMatch_captures:
  "damageMatch s = Some (numDice, dieSize, bonus) \<Longrightarrow>
     digits numDice \<and> digits dieSize \<and> (case bonus of Some b \<Rightarrow> digits b | None \<Rightarrow> True)"
proof (induction s)
  case Nil
  then show ?case by simp
next
  case (Cons c s)
  show ?case
  proof (cases "matchHere (c # s)")
    case None
    with Cons show ?thesis by simp
  next
    case (Some m)
    with Cons.prems have "matchHere (c # s) = Some (numDice, dieSize, bonus)" by simp
    then show ?thesis
      by (auto simp: matchHere_def Let_def digits_def list_all_iff
          split: if_splits list.splits dest: set_takeWhileD)
  qed
qed

text \<open>
  \<^verbatim>\<open>parseInt\<close> of a run of digits is the number the digits write, and the search
  of \<^verbatim>\<open>String.match\<close> captures the dice where they first stand in the descriptor.
\<close>

lemma digit_cases:
  assumes "isDigit c"
  obtains "c = CHR ''0''" | "c = CHR ''1''" | "c = CHR ''2''" | "c = CHR ''3''" | "c = CHR ''4''"
    | "c = CHR ''5''" | "c = CHR ''6''" | "c = CHR ''7''" | "c = CHR ''8''" | "c = CHR ''9''"
  using assms unfolding isDigit_def by (simp only: set_simps insert_iff empty_iff) blast

lemma digitValue_digitOf: "isDigit c \<Longrightarrow> digitValue c = digitOf c"
  by (erule digit_cases) (simp_all add: digitValue_def digitOf_def)

lemma foldl_decimal:
  "list_all isDigit ds \<Longrightarrow>
     foldl (\<lambda>acc c. 10 * acc + digitValue c) a ds = a * 10 ^ length ds + decimal ds"
proof (induction ds arbitrary: a)
  case Nil
  then show ?case by simp
next
  case (Cons c ds)
  then show ?case by (simp add: digitValue_digitOf algebra_simps)
qed

lemma parseInt_decimal: "digits ds \<Longrightarrow> parseInt ds = decimal ds"
  by (simp add: parseInt_def digits_def foldl_decimal)

lemma takeWhile_run:
  "digits n \<Longrightarrow> \<not> startsWithDigit t \<Longrightarrow>
     takeWhile isDigit (n @ t) = n \<and> dropWhile isDigit (n @ t) = t"
  by (cases t) (auto simp: digits_def startsWithDigit_def list_all_iff)

lemma not_digit_plus: "\<not> isDigit CHR ''+''"
  by (simp add: isDigit_def)

lemma matchHere_dice:
  assumes "digits n" "digits m" "\<not> startsWithDigit tail"
  shows "matchHere (n @ ''d'' @ m @ tail) =
           Some (n, m, case tail of
                         [] \<Rightarrow> None
                       | p # r \<Rightarrow> if p = CHR ''+'' \<and> takeWhile isDigit r \<noteq> []
                                  then Some (takeWhile isDigit r) else None)"
proof -
  have d: "\<not> startsWithDigit (CHR ''d'' # m @ tail)"
    by (simp add: startsWithDigit_def not_digit_d)
  from takeWhile_run [OF assms(1) d]
  have tn: "takeWhile isDigit (n @ CHR ''d'' # m @ tail) = n"
    "dropWhile isDigit (n @ CHR ''d'' # m @ tail) = CHR ''d'' # m @ tail"
    by blast+
  from takeWhile_run [OF assms(2,3)]
  have tm: "takeWhile isDigit (m @ tail) = m" "dropWhile isDigit (m @ tail) = tail"
    by blast+
  from assms(1,2) have ne: "n \<noteq> []" "m \<noteq> []"
    by (simp_all add: digits_def)
  show ?thesis
  proof (cases tail)
    case Nil
    have a: "takeWhile isDigit (n @ CHR ''d'' # m) = n"
      "dropWhile isDigit (n @ CHR ''d'' # m) = CHR ''d'' # m"
      using tn unfolding Nil by simp_all
    have b: "takeWhile isDigit m = m" "dropWhile isDigit m = []"
      using tm unfolding Nil by simp_all
    show ?thesis
      unfolding Nil by (simp add: matchHere_def Let_def a b ne)
  next
    case (Cons p r)
    from assms(2) have am: "\<And>x. x \<in> set m \<Longrightarrow> isDigit x"
      by (simp add: digits_def list_all_iff)
    show ?thesis
      unfolding Cons
      by (simp add: matchHere_def Let_def tn [unfolded Cons] tm [unfolded Cons] ne am
          not_digit_plus)
  qed
qed

lemma damageMatch_diceText:
  "diceText descriptor before n m tail \<Longrightarrow>
     damageMatch descriptor = matchHere (n @ ''d'' @ m @ tail)"
proof (induction before arbitrary: descriptor)
  case Nil
  then have d: "descriptor = n @ ''d'' @ m @ tail" and nm: "digits n" "digits m"
    and t: "\<not> startsWithDigit tail"
    by (simp_all add: diceText_def)
  from nm have "descriptor \<noteq> []" by (simp add: d digits_def)
  then obtain c cs where cs: "descriptor = c # cs" by (cases descriptor) auto
  have "matchHere descriptor = matchHere (n @ ''d'' @ m @ tail)"
    by (simp only: d)
  moreover have "matchHere (n @ ''d'' @ m @ tail) \<noteq> None"
    by (simp only: matchHere_dice [OF nm t]) simp
  ultimately show ?case
    unfolding cs by (auto split: option.splits)
next
  case (Cons c before)
  let ?s = "before @ n @ ''d'' @ m @ tail"
  have prems: "descriptor = (c # before) @ n @ ''d'' @ m @ tail \<and> digits n \<and> digits m
      \<and> \<not> startsWithDigit tail
      \<and> (\<forall>pre n' m' rest.
             descriptor = pre @ n' @ ''d'' @ m' @ rest \<and> digits n' \<and> digits m'
             \<longrightarrow> length (c # before) \<le> length pre)"
    using Cons.prems unfolding diceText_def .
  then have d: "descriptor = c # ?s" and nm: "digits n" "digits m"
    and t: "\<not> startsWithDigit tail"
    by simp_all
  from prems have left: "length (c # before) \<le> length pre"
    if "descriptor = pre @ n' @ ''d'' @ m' @ rest" "digits n'" "digits m'" for pre n' m' rest
    using that by blast
  have "matchHere descriptor = None"
  proof (rule ccontr)
    assume "matchHere descriptor \<noteq> None"
    then obtain n' m' rest where "descriptor = n' @ CHR ''d'' # m' @ rest" "digits n'" "digits m'"
      unfolding matchHere_iff by blast
    then have "descriptor = [] @ n' @ ''d'' @ m' @ rest" by simp
    from left [OF this \<open>digits n'\<close> \<open>digits m'\<close>] show False by simp
  qed
  then have step: "damageMatch descriptor = damageMatch ?s"
    by (simp add: d)
  have "diceText ?s before n m tail"
    unfolding diceText_def
  proof (intro conjI allI impI)
    fix pre n' m' rest
    assume "?s = pre @ n' @ ''d'' @ m' @ rest \<and> digits n' \<and> digits m'"
    then have "descriptor = (c # pre) @ n' @ ''d'' @ m' @ rest" "digits n'" "digits m'"
      by (simp_all add: d)
    from left [OF this] show "length before \<le> length pre" by simp
  qed (use nm t in simp_all)
  from Cons.IH [OF this] step show ?case by simp
qed

lemma diceText_exists:
  assumes "matchesDicePattern descriptor"
  shows "\<exists>before n m tail. diceText descriptor before n m tail"
proof -
  define P where "P l \<longleftrightarrow> (\<exists>pre n m rest. descriptor = pre @ n @ ''d'' @ m @ rest
      \<and> digits n \<and> digits m \<and> length pre = l)" for l
  from assms have "\<exists>l. P l"
    by (auto simp: matchesDicePattern_def P_def)
  then have l: "P (LEAST l. P l)"
    by (rule LeastI_ex)
  define l where "l = (LEAST l. P l)"
  have least: "l \<le> j" if "P j" for j
    unfolding l_def using that by (rule Least_le)
  note l = l [folded l_def]
  from l obtain pre n m rest where d: "descriptor = pre @ n @ ''d'' @ m @ rest"
    and nm: "digits n" "digits m" and len: "length pre = l"
    unfolding P_def by blast
  let ?m = "m @ takeWhile isDigit rest" and ?t = "dropWhile isDigit rest"
  have f1: "descriptor = pre @ n @ ''d'' @ ?m @ ?t" by (simp add: d)
  have f2: "digits ?m"
    using nm by (auto simp: digits_def list_all_iff dest: set_takeWhileD)
  have f3: "\<not> startsWithDigit ?t"
  proof (cases ?t)
    case Nil
    show ?thesis unfolding startsWithDigit_def Nil by simp
  next
    case (Cons a list)
    then have "?t \<noteq> []" by simp
    from hd_dropWhile [OF this] show ?thesis
      by (simp add: startsWithDigit_def Cons)
  qed
  have f4: "\<forall>pre' n' m' rest'.
             descriptor = pre' @ n' @ ''d'' @ m' @ rest' \<and> digits n' \<and> digits m'
             \<longrightarrow> length pre \<le> length pre'"
  proof (intro allI impI)
    fix pre' n' m' rest'
    assume a: "descriptor = pre' @ n' @ ''d'' @ m' @ rest' \<and> digits n' \<and> digits m'"
    have "P (length pre')"
      unfolding P_def
      by (rule exI [of _ pre'], rule exI [of _ n'], rule exI [of _ m'], rule exI [of _ rest'])
        (use a in simp)
    from least [OF this] show "length pre \<le> length pre'" by (simp add: len)
  qed
  have "diceText descriptor pre n ?m ?t"
    unfolding diceText_def by (intro conjI) (rule f1 nm(1) f2 f3 f4)+
  then show ?thesis by blast
qed

lemma startsWithDigit_dropWhile: "\<not> startsWithDigit (dropWhile isDigit s)"
proof (cases "dropWhile isDigit s")
  case Nil
  show ?thesis unfolding startsWithDigit_def Nil by simp
next
  case (Cons a list)
  then have "dropWhile isDigit s \<noteq> []" by simp
  from hd_dropWhile [OF this] show ?thesis
    by (simp add: startsWithDigit_def Cons)
qed

lemma bonus_run:
  assumes "tail = ''+'' @ b @ rest" and "digits b"
  shows "\<exists>b' rest'. tail = ''+'' @ b' @ rest' \<and> digits b' \<and> \<not> startsWithDigit rest'"
proof -
  let ?b = "b @ takeWhile isDigit rest" and ?r = "dropWhile isDigit rest"
  have "tail = ''+'' @ ?b @ ?r"
    by (simp add: assms(1))
  moreover have "digits ?b"
    using assms(2) by (auto simp: digits_def list_all_iff dest: set_takeWhileD)
  moreover note startsWithDigit_dropWhile [of rest]
  ultimately show ?thesis by blast
qed

lemma diceText_reading:
  assumes "matchesDicePattern descriptor"
  shows "\<exists>before n m tail.
           diceText descriptor before n m tail
           \<and> ((\<exists>b rest. tail = ''+'' @ b @ rest \<and> digits b \<and> \<not> startsWithDigit rest)
                \<or> \<not> (\<exists>b rest. tail = ''+'' @ b @ rest \<and> digits b))"
proof -
  from diceText_exists [OF assms] obtain before n m tail
    where dice: "diceText descriptor before n m tail"
    by blast
  have "(\<exists>b rest. tail = ''+'' @ b @ rest \<and> digits b \<and> \<not> startsWithDigit rest)
                \<or> \<not> (\<exists>b rest. tail = ''+'' @ b @ rest \<and> digits b)"
    using bonus_run [of tail] by blast
  with dice show ?thesis by blast
qed

lemma rollDamage_dice_bonus:
  assumes dice: "diceText descriptor before n m (''+'' @ b @ rest)"
    and b: "digits b" and rest: "\<not> startsWithDigit rest"
  shows "rollDamage rnd descriptor k =
           ((\<Sum>i<decimal n. rollDie (rnd (k + i)) (int (decimal m))) + int (decimal b),
            k + decimal n)"
proof -
  from dice have nm: "digits n" "digits m" and t: "\<not> startsWithDigit (''+'' @ b @ rest)"
    unfolding diceText_def by blast+
  from takeWhile_run [OF b rest] b have tb: "takeWhile isDigit (b @ rest) = b" "b \<noteq> []"
    by (simp_all add: digits_def)
  have "damageMatch descriptor = Some (n, m, Some b)"
    unfolding damageMatch_diceText [OF dice] matchHere_dice [OF nm t]
    by (simp add: tb)
  from rollDamage_matched [OF this, of rnd k] show ?thesis
    by (simp add: parseInt_decimal nm b)
qed

lemma rollDamage_dice_plain:
  assumes dice: "diceText descriptor before n m tail"
    and plain: "\<not> (\<exists>b rest. tail = ''+'' @ b @ rest \<and> digits b)"
  shows "rollDamage rnd descriptor k =
           ((\<Sum>i<decimal n. rollDie (rnd (k + i)) (int (decimal m))), k + decimal n)"
proof -
  from dice have nm: "digits n" "digits m" and t: "\<not> startsWithDigit tail"
    unfolding diceText_def by blast+
  have none: "(case tail of
                 [] \<Rightarrow> None
               | p # r \<Rightarrow> if p = CHR ''+'' \<and> takeWhile isDigit r \<noteq> []
                          then Some (takeWhile isDigit r) else None) = None"
  proof (cases tail)
    case Nil
    then show ?thesis by simp
  next
    case (Cons p r)
    have "\<not> (p = CHR ''+'' \<and> takeWhile isDigit r \<noteq> [])"
    proof
      assume a: "p = CHR ''+'' \<and> takeWhile isDigit r \<noteq> []"
      then have "tail = ''+'' @ takeWhile isDigit r @ dropWhile isDigit r"
        by (simp add: Cons)
      moreover from a have "digits (takeWhile isDigit r)"
        by (auto simp: digits_def list_all_iff dest: set_takeWhileD)
      ultimately show False using plain by blast
    qed
    then show ?thesis by (simp add: Cons)
  qed
  have "damageMatch descriptor = Some (n, m, None)"
    unfolding damageMatch_diceText [OF dice] matchHere_dice [OF nm t] none ..
  from rollDamage_matched [OF this, of rnd k] show ?thesis
    by (simp add: parseInt_decimal nm)
qed

lemma diceText_whole:
  "digits n \<Longrightarrow> digits m \<Longrightarrow> \<not> startsWithDigit tail \<Longrightarrow>
     diceText (n @ ''d'' @ m @ tail) [] n m tail"
  by (simp add: diceText_def)

text \<open>
  Claim C4. \<^verbatim>\<open>rollDamage\<close> returns 0 (and draws nothing) when the descriptor does not
  match \<^verbatim>\<open>\d+d\d+(\+\d+)?\<close>. A descriptor that matches reads
  \<open>before n d m tail\<close>, with \<open>n\<close> and \<open>m\<close> the first runs of digits around a
  \<^verbatim>\<open>d\<close>; \<^verbatim>\<open>rollDamage\<close> then returns the sum of \<open>N\<close> rolls of a die with
  \<open>M\<close> sides, each from its own draw, plus \<open>B\<close>, where \<open>N\<close> and \<open>M\<close> are
  the numbers that \<open>n\<close> and \<open>m\<close> write in decimal, and \<open>B\<close> is the number
  written by the digits \<open>b\<close> when \<open>tail\<close> begins with \<^verbatim>\<open>+\<close> and the run
  \<open>b\<close>, and 0 when \<open>tail\<close> does not begin with \<^verbatim>\<open>+\<close> and a digit.
  Every descriptor that matches reads in one of these two ways. In particular this is so
  for the descriptors \<open>n d m\<close> and \<open>n d m + b\<close> themselves.
  With every d6 showing 4, \<^verbatim>\<open>rollDamage("2d6+3")\<close> is 11.
\<close>

theorem rollDamage_spec:
  "(\<not> matchesDicePattern descriptor \<longrightarrow> rollDamage rnd descriptor k = (0, k))
   \<and> (matchesDicePattern descriptor \<longrightarrow>
        (\<exists>before n m tail.
           diceText descriptor before n m tail
           \<and> ((\<exists>b rest. tail = ''+'' @ b @ rest \<and> digits b \<and> \<not> startsWithDigit rest)
                \<or> \<not> (\<exists>b rest. tail = ''+'' @ b @ rest \<and> digits b))))
   \<and> (\<forall>before n m b rest.
         diceText descriptor before n m (''+'' @ b @ rest) \<and> digits b \<and> \<not> startsWithDigit rest
         \<longrightarrow> rollDamage rnd descriptor k =
               ((\<Sum>i<decimal n. rollDie (rnd (k + i)) (int (decimal m))) + int (decimal b),
                k + decimal n))
   \<and> (\<forall>before n m tail.
         diceText descriptor before n m tail
         \<and> \<not> (\<exists>b rest. tail = ''+'' @ b @ rest \<and> digits b)
         \<longrightarrow> rollDamage rnd descriptor k =
               ((\<Sum>i<decimal n. rollDie (rnd (k + i)) (int (decimal m))), k + decimal n))
   \<and> (\<forall>n m. digits n \<and> digits m
         \<longrightarrow> rollDamage rnd (n @ ''d'' @ m) k =
               ((\<Sum>i<decimal n. rollDie (rnd (k + i)) (int (decimal m))), k + decimal n))
   \<and> (\<forall>n m b. digits n \<and> digits m \<and> digits b
         \<longrightarrow> rollDamage rnd (n @ ''d'' @ m @ ''+'' @ b) k =
               ((\<Sum>i<decimal n. rollDie (rnd (k + i)) (int (decimal m))) + int (decimal b),
                k + decimal n))
   \<and> ((\<forall>i. rollDie (rnd i) 6 = 4) \<longrightarrow> fst (rollDamage rnd ''2d6+3'' k) = 11)"
proof (intro conjI impI allI)
  assume "\<not> matchesDicePattern descriptor"
  then have "damageMatch descriptor = None"
    by (simp add: damageMatch_None_iff)
  then show "rollDamage rnd descriptor k = (0, k)" by (simp add: rollDamage_def)
next
  assume "matchesDicePattern descriptor"
  then show "\<exists>before n m tail.
           diceText descriptor before n m tail
           \<and> ((\<exists>b rest. tail = ''+'' @ b @ rest \<and> digits b \<and> \<not> startsWithDigit rest)
                \<or> \<not> (\<exists>b rest. tail = ''+'' @ b @ rest \<and> digits b))"
    by (rule diceText_reading)
next
  fix before n m b rest
  assume "diceText descriptor before n m (''+'' @ b @ rest) \<and> digits b \<and> \<not> startsWithDigit rest"
  then show "rollDamage rnd descriptor k =
               ((\<Sum>i<decimal n. rollDie (rnd (k + i)) (int (decimal m))) + int (decimal b),
                k + decimal n)"
    using rollDamage_dice_bonus by blast
next
  fix before n m tail
  assume "diceText descriptor before n m tail
         \<and> \<not> (\<exists>b rest. tail = ''+'' @ b @ rest \<and> digits b)"
  then show "rollDamage rnd descriptor k =
               ((\<Sum>i<decimal n. rollDie (rnd (k + i)) (int (decimal m))), k + decimal n)"
    using rollDamage_dice_plain by blast
next
  fix n m
  assume nm: "digits n \<and> digits m"
  then have "diceText (n @ ''d'' @ m @ []) [] n m []"
    by (intro diceText_whole) (simp_all add: startsWithDigit_def)
  from rollDamage_dice_plain [OF this, of rnd k]
  show "rollDamage rnd (n @ ''d'' @ m) k =
               ((\<Sum>i<decimal n. rollDie (rnd (k + i)) (int (decimal m))), k + decimal n)"
    by simp
next
  fix n m b
  assume nmb: "digits n \<and> digits m \<and> digits b"
  then have "diceText (n @ ''d'' @ m @ ''+'' @ b @ []) [] n m (''+'' @ b @ [])"
    by (intro diceText_whole) (simp_all add: startsWithDigit_def not_digit_plus)
  from rollDamage_dice_bonus [OF this, of rnd k] nmb
  show "rollDamage rnd (n @ ''d'' @ m @ ''+'' @ b) k =
               ((\<Sum>i<decimal n. rollDie (rnd (k + i)) (int (decimal m))) + int (decimal b),
                k + decimal n)"
    by (simp add: startsWithDigit_def)
next
  assume four: "\<forall>i. rollDie (rnd i) 6 = 4"
  have "fst (rollDamage rnd ''2d6+3'' k) = (\<Sum>i<(2::nat). rollDie (rnd (k + i)) 6) + 3"
    by (simp add: rollDamage_matched [OF damageMatch_2d6_3] parseInt_digits)
  also have "\<dots> = 11" using four by (simp add: numeral_2_eq_2)
  finally show "fst (rollDamage rnd ''2d6+3'' k) = 11" .
qed

theorem rollDamage_spec_witness:
  "rollDamage (constantRandom (1 / 2)) ''aucun'' 0 = (0, 0)
   \<and> rollDamage (constantRandom (1 / 2)) ''2d6'' 0 = (8, 2)
   \<and> rollDamage (constantRandom (1 / 2)) ''3d10+12'' 0 = (30, 3)
   \<and> rollDamage (constantRandom (1 / 2)) ''1d8+2 feu'' 5 = (7, 6)
   \<and> rollDamage (constantRandom (1 / 2)) ''1d8 +2'' 5 = (5, 6)
   \<and> fst (rollDamage (constantRandom (1 / 2)) ''2d6+3'' 0) = 11"
proof -
  have "damageMatch ''aucun'' = None"
    by (simp add: matchHere_def isDigit_def)
  then have none: "\<not> matchesDicePattern ''aucun''"
    using damageMatch_None_iff [of "''aucun''"] by blast
  have dg: "digits ''1''" "digits ''2''" "digits ''3''" "digits ''6''" "digits ''8''"
    "digits ''10''" "digits ''12''"
    by (simp_all add: digits_def isDigit_def)
  have die: "rollDie (constantRandom (1 / 2) i) 6 = 4" "rollDie (constantRandom (1 / 2) i) 8 = 5"
    "rollDie (constantRandom (1 / 2) i) 10 = 6" for i
    by (simp_all add: constantRandom_def rollDie_def)
  have feu: "diceText ''1d8+2 feu'' [] ''1'' ''8'' (''+'' @ ''2'' @ '' feu'')
      \<and> digits ''2'' \<and> \<not> startsWithDigit '' feu''"
    by (simp add: diceText_def dg startsWithDigit_def isDigit_def)
  have gap: "diceText ''1d8 +2'' [] ''1'' ''8'' '' +2''
      \<and> \<not> (\<exists>b rest. '' +2'' = ''+'' @ b @ rest \<and> digits b)"
    by (simp add: diceText_def dg startsWithDigit_def isDigit_def)
  note spec = rollDamage_spec [where rnd = "constantRandom (1 / 2)"]
  note unmatched = spec [THEN conjunct1, rule_format]
  note bonus = spec [THEN conjunct2, THEN conjunct2, THEN conjunct1, rule_format]
  note plain = spec [THEN conjunct2, THEN conjunct2, THEN conjunct2, THEN conjunct1, rule_format]
  note dice = spec [THEN conjunct2, THEN conjunct2, THEN conjunct2, THEN conjunct2,
      THEN conjunct1, rule_format]
  note diceBonus = spec [THEN conjunct2, THEN conjunct2, THEN conjunct2, THEN conjunct2,
      THEN conjunct2, THEN conjunct1, rule_format]
  note fours = spec [THEN conjunct2, THEN conjunct2, THEN conjunct2, THEN conjunct2,
      THEN conjunct2, THEN conjunct2, rule_format]
  from unmatched [OF none]
  have a: "rollDamage (constantRandom (1 / 2)) ''aucun'' 0 = (0, 0)" .
  from dice [OF conjI [OF dg(2) dg(4)], where k = 0]
  have b: "rollDamage (constantRandom (1 / 2)) ''2d6'' 0 = (8, 2)"
    by (simp add: die digitOf_def)
  from diceBonus [OF conjI [OF dg(3) conjI [OF dg(6) dg(7)]], where k = 0]
  have c: "rollDamage (constantRandom (1 / 2)) ''3d10+12'' 0 = (30, 3)"
    by (simp add: die digitOf_def)
  from bonus [OF feu, where k = 5]
  have d: "rollDamage (constantRandom (1 / 2)) ''1d8+2 feu'' 5 = (7, 6)"
    by (simp add: die digitOf_def)
  from plain [OF gap, where k = 5]
  have e: "rollDamage (constantRandom (1 / 2)) ''1d8 +2'' 5 = (5, 6)"
    by (simp add: die digitOf_def)
  from fours [where k = 0] die(1)
  have f: "fst (rollDamage (constantRandom (1 / 2)) ''2d6+3'' 0) = 11"
    by simp
  from a b c d e f show ?thesis by simp
qed

text \<open>
  Claim C10. When the descriptor parses into \<open>N \<ge> 1\<close> dice of \<open>M \<ge> 1\<close> sides with
  bonus \<open>B\<close> and every roll of the \<open>M\<close>-sided die lies in \<open>[1, M]\<close>, the value of
  \<^verbatim>\<open>rollDamage\<close> lies between \<open>N + B\<close> and \<open>N * M + B\<close>; in particular it is not
  negative.
\<close>

theorem rollDamage_bounds:
  assumes parsed: "damageMatch descriptor = Some (numDice, dieSize, bonus)"
    and "1 \<le> parseInt numDice" and "1 \<le> parseInt dieSize"
    and die: "\<forall>i. 1 \<le> rollDie (rnd i) (int (parseInt dieSize))
                 \<and> rollDie (rnd i) (int (parseInt dieSize)) \<le> int (parseInt dieSize)"
  shows "int (parseInt numDice) + (case bonus of Some b \<Rightarrow> int (parseInt b) | None \<Rightarrow> 0)
           \<le> fst (rollDamage rnd descriptor k)
       \<and> fst (rollDamage rnd descriptor k)
           \<le> int (parseInt numDice) * int (parseInt dieSize)
              + (case bonus of Some b \<Rightarrow> int (parseInt b) | None \<Rightarrow> 0)
       \<and> 0 \<le> fst (rollDamage rnd descriptor k)"
proof -
  let ?n = "parseInt numDice" and ?m = "int (parseInt dieSize)"
  let ?b = "case bonus of Some b \<Rightarrow> int (parseInt b) | None \<Rightarrow> 0"
  let ?s = "\<Sum>i<?n. rollDie (rnd (k + i)) ?m"
  have val: "fst (rollDamage rnd descriptor k) = ?s + ?b"
    by (simp add: rollDamage_matched [OF parsed])
  have "(\<Sum>i<?n. (1::int)) \<le> ?s"
    by (rule sum_mono) (use die in simp)
  then have lo: "int ?n \<le> ?s" by simp
  have "?s \<le> (\<Sum>i<?n. ?m)"
    by (rule sum_mono) (use die in simp)
  then have hi: "?s \<le> int ?n * ?m" by simp
  have b0: "0 \<le> ?b" by (cases bonus) simp_all
  from lo hi b0 show ?thesis unfolding val by simp
qed

theorem rollDamage_bounds_witness:
  "2 + 3 \<le> fst (rollDamage (constantRandom (1 / 2)) ''2d6+3'' 0)
   \<and> fst (rollDamage (constantRandom (1 / 2)) ''2d6+3'' 0) \<le> 2 * 6 + 3
   \<and> 0 \<le> fst (rollDamage (constantRandom (1 / 2)) ''2d6+3'' 0)"
proof -
  have die: "\<forall>i. 1 \<le> rollDie (constantRandom (1 / 2) i) (int (parseInt ''6''))
                 \<and> rollDie (constantRandom (1 / 2) i) (int (parseInt ''6'')) \<le> int (parseInt ''6'')"
    by (simp add: constantRandom_def rollDie_def parseInt_digits)
  have "1 \<le> parseInt ''2''" "1 \<le> parseInt ''6''" by (simp_all add: parseInt_digits)
  from rollDamage_bounds [OF damageMatch_2d6_3 this die, of 0]
  show ?thesis by (simp add: parseInt_digits)
qed

section \<open>Critical hits\<close>

text \<open>
  One target, a d20 that shows 20 and a callee that returns a bonus, \<^verbatim>\<open>NaN\<close>
  included: the attack is a critical hit whatever the armor class, with twice the rolled
  damage. A callee that raises ends the attack with its exception.
\<close>

lemma attackTarget_critical:
  assumes "fst (rollD20 rnd k) = 20"
    and "damage weapon = Some descriptor"
    and "bonusOf attacker weapon = Inr bonus"
  shows "attackTarget bonusOf rnd attacker weapon tgt (res, k) =
           Inr (res\<lparr>results_messages := results_messages res @
                      [\<lparr>message_text = CriticalText (name attacker)
                                        (2 * fst (rollDamage rnd descriptor (k + 1))) (name tgt),
                        message_type = ''critical''\<rparr>],
                    results_damage := results_damage res @
                      [\<lparr>targetId = entity_id tgt,
                        entry_damage = 2 * fst (rollDamage rnd descriptor (k + 1))\<rparr>]\<rparr>,
                snd (rollDamage rnd descriptor (k + 1)))"
proof -
  from assms(1) have roll: "rollD20 rnd k = (20, k + 1)"
    by (simp add: rollD20_def)
  obtain rolled k2 where dmg: "rollDamage rnd descriptor (k + 1) = (rolled, k2)"
    by (cases "rollDamage rnd descriptor (k + 1)")
  show ?thesis
    by (simp add: attackTarget_def roll assms(2,3) dmg Let_def del: One_nat_def)
qed

lemma attackTarget_raises:
  "bonusOf attacker weapon = Inl e \<Longrightarrow>
     attackTarget bonusOf rnd attacker weapon tgt (res, k) = Inl e"
  by (simp add: attackTarget_def split: prod.splits)

lemma getAttackBonus_earlier_returns:
  "stats attacker \<noteq> None \<Longrightarrow> \<exists>bonus. getAttackBonus_earlier attacker weapon = Inr bonus"
  by (auto simp: getAttackBonus_earlier_def split: option.splits)

lemma executeAttack_earlier_no_stats:
  "stats attacker = None \<Longrightarrow>
     executeAttack getAttackBonus_earlier rnd attacker weapon [tgt] (res, k) = Inl TypeError"
  by (simp add: attackTarget_raises getAttackBonus_earlier_def)

text \<open>
  Claim C3. When the d20 of the attack shows 20, \<^verbatim>\<open>executeAttack\<close> hits whatever the
  armor class of the target is (any number, or none): it records a message of category
  \<^verbatim>\<open>critical\<close> and one damage entry for the target, and the damage is twice the value
  of the one \<^verbatim>\<open>rollDamage\<close> call made on the weapon's descriptor with the draws that
  follow the d20. The count of draws afterwards is the one that call leaves, so the
  damage is rolled once and then doubled. This holds for \<^verbatim>\<open>executeAttack\<close> of
  \<^verbatim>\<open>services/CombatService.js\<close>, whose \<^verbatim>\<open>getAttackBonus\<close> raises without
  \<^verbatim>\<open>stats\<close>, for every attacker that has \<^verbatim>\<open>stats\<close> (whatever its level and
  scores, a \<^verbatim>\<open>NaN\<close> bonus included), and for the revision whose
  \<^verbatim>\<open>getAttackBonus\<close> does not raise, for every attacker.
\<close>

theorem executeAttack_critical:
  assumes twenty: "fst (rollD20 rnd k) = 20"
    and descriptor: "damage weapon = Some descriptor"
  shows "(stats attacker \<noteq> None \<longrightarrow>
            executeAttack getAttackBonus_earlier rnd attacker weapon [tgt\<lparr>ac := armor\<rparr>] (res, k) =
              Inr (res\<lparr>results_messages := results_messages res @
                         [\<lparr>message_text = CriticalText (name attacker)
                                           (2 * fst (rollDamage rnd descriptor (k + 1))) (name tgt),
                           message_type = ''critical''\<rparr>],
                       results_damage := results_damage res @
                         [\<lparr>targetId = entity_id tgt,
                           entry_damage = 2 * fst (rollDamage rnd descriptor (k + 1))\<rparr>]\<rparr>,
                   snd (rollDamage rnd descriptor (k + 1))))
       \<and> executeAttack laterBonus rnd attacker weapon [tgt\<lparr>ac := armor\<rparr>] (res, k) =
           Inr (res\<lparr>results_messages := results_messages res @
                      [\<lparr>message_text = CriticalText (name attacker)
                                        (2 * fst (rollDamage rnd descriptor (k + 1))) (name tgt),
                        message_type = ''critical''\<rparr>],
                    results_damage := results_damage res @
                      [\<lparr>targetId = entity_id tgt,
                        entry_damage = 2 * fst (rollDamage rnd descriptor (k + 1))\<rparr>]\<rparr>,
                snd (rollDamage rnd descriptor (k + 1)))"
proof (intro conjI impI)
  assume "stats attacker \<noteq> None"
  then obtain bonus where "getAttackBonus_earlier attacker weapon = Inr bonus"
    using getAttackBonus_earlier_returns by blast
  from attackTarget_critical [where bonusOf = getAttackBonus_earlier and attacker = attacker
      and tgt = "tgt\<lparr>ac := armor\<rparr>" and res = res, OF twenty descriptor this]
  show "executeAttack getAttackBonus_earlier rnd attacker weapon [tgt\<lparr>ac := armor\<rparr>] (res, k) =
              Inr (res\<lparr>results_messages := results_messages res @
                         [\<lparr>message_text = CriticalText (name attacker)
                                           (2 * fst (rollDamage rnd descriptor (k + 1))) (name tgt),
                           message_type = ''critical''\<rparr>],
                       results_damage := results_damage res @
                         [\<lparr>targetId = entity_id tgt,
                           entry_damage = 2 * fst (rollDamage rnd descriptor (k + 1))\<rparr>]\<rparr>,
                   snd (rollDamage rnd descriptor (k + 1)))"
    by simp
next
  have "laterBonus attacker weapon = Inr (getAttackBonus attacker weapon)"
    by (simp add: laterBonus_def)
  from attackTarget_critical [where bonusOf = laterBonus and attacker = attacker
      and tgt = "tgt\<lparr>ac := armor\<rparr>" and res = res, OF twenty descriptor this]
  show "executeAttack laterBonus rnd attacker weapon [tgt\<lparr>ac := armor\<rparr>] (res, k) =
           Inr (res\<lparr>results_messages := results_messages res @
                      [\<lparr>message_text = CriticalText (name attacker)
                                        (2 * fst (rollDamage rnd descriptor (k + 1))) (name tgt),
                        message_type = ''critical''\<rparr>],
                    results_damage := results_damage res @
                      [\<lparr>targetId = entity_id tgt,
                        entry_damage = 2 * fst (rollDamage rnd descriptor (k + 1))\<rparr>]\<rparr>,
                snd (rollDamage rnd descriptor (k + 1)))"
    by simp
qed

theorem executeAttack_critical_witness:
  "executeAttack getAttackBonus_earlier (constantRandom (19 / 20)) sampleCharacter sampleWeapon
     [sampleEnemy\<lparr>ac := Some 100\<rparr>] (emptyResults, 0) =
   Inr (\<lparr>results_damage = [\<lparr>targetId = Some ''gobelin_0_0'', entry_damage = 20\<rparr>],
         results_effects = [],
         results_messages = [\<lparr>message_text = CriticalText ''Elarion'' 20 ''Gobelin'',
                               message_type = ''critical''\<rparr>]\<rparr>, 2)
   \<and> executeAttack laterBonus (constantRandom (19 / 20)) (sampleCharacter\<lparr>stats := None\<rparr>)
       sampleWeapon [sampleEnemy\<lparr>ac := None\<rparr>] (emptyResults, 0) =
     Inr (\<lparr>results_damage = [\<lparr>targetId = Some ''gobelin_0_0'', entry_damage = 20\<rparr>],
           results_effects = [],
           results_messages = [\<lparr>message_text = CriticalText ''Elarion'' 20 ''Gobelin'',
                                 message_type = ''critical''\<rparr>]\<rparr>, 2)"
proof -
  have twenty: "fst (rollD20 (constantRandom (19 / 20)) 0) = 20"
    by (simp add: rollD20_def rollDie_def constantRandom_def)
  have descriptor: "damage sampleWeapon = Some ''1d8+2''"
    by (simp add: sampleWeapon_def)
  have dmg: "rollDamage (constantRandom (19 / 20)) ''1d8+2'' (Suc 0) = (10, 2)"
    by (simp add: rollDamage_def matchHere_def isDigit_def parseInt_def digitValue_def
        rollDamage_loop.simps rollDie_def constantRandom_def)
  have st: "stats sampleCharacter \<noteq> None"
    by (simp add: sampleCharacter_def)
  from executeAttack_critical [OF twenty descriptor, where attacker = sampleCharacter
      and tgt = sampleEnemy and armor = "Some 100" and res = emptyResults] st
  have a: "executeAttack getAttackBonus_earlier (constantRandom (19 / 20)) sampleCharacter
     sampleWeapon [sampleEnemy\<lparr>ac := Some 100\<rparr>] (emptyResults, 0) =
   Inr (\<lparr>results_damage = [\<lparr>targetId = Some ''gobelin_0_0'', entry_damage = 20\<rparr>],
         results_effects = [],
         results_messages = [\<lparr>message_text = CriticalText ''Elarion'' 20 ''Gobelin'',
                               message_type = ''critical''\<rparr>]\<rparr>, 2)"
    by (simp add: dmg emptyResults_def sampleCharacter_def sampleEnemy_def)
  from executeAttack_critical [OF twenty descriptor,
      where attacker = "sampleCharacter\<lparr>stats := None\<rparr>"
      and tgt = sampleEnemy and armor = None and res = emptyResults]
  have b: "executeAttack laterBonus (constantRandom (19 / 20)) (sampleCharacter\<lparr>stats := None\<rparr>)
       sampleWeapon [sampleEnemy\<lparr>ac := None\<rparr>] (emptyResults, 0) =
     Inr (\<lparr>results_damage = [\<lparr>targetId = Some ''gobelin_0_0'', entry_damage = 20\<rparr>],
           results_effects = [],
           results_messages = [\<lparr>message_text = CriticalText ''Elarion'' 20 ''Gobelin'',
                                 message_type = ''critical''\<rparr>]\<rparr>, 2)"
    by (simp add: dmg emptyResults_def sampleCharacter_def sampleEnemy_def)
  from a b show ?thesis by simp
qed

section \<open>Attack bonus\<close>

text \<open>
  Claim C5, as the code has it, for each of the two revisions of \<^verbatim>\<open>getAttackBonus\<close>.

  The revision with \<^verbatim>\<open>executeEntityAttack\<close> returns \<^verbatim>\<open>attack.attackBonus\<close> when it
  is set. Otherwise, for a character without \<^verbatim>\<open>stats\<close> it returns 0. Otherwise it
  returns the proficiency bonus (2 for an absent level or a level of 0) plus the modifier
  of the governing stat when the ability scores hold it; the proficiency bonus alone when
  they do not and the name of the stat is not one that \<^verbatim>\<open>Object.prototype\<close> gives to
  every object; and \<^verbatim>\<open>NaN\<close> when it is such a name. These are the only results
  that are \<^verbatim>\<open>NaN\<close>.

  The revision of \<^verbatim>\<open>services/CombatService.js\<close> raises a TypeError for a character
  without \<^verbatim>\<open>stats\<close>. Otherwise it returns \<^verbatim>\<open>ceil(level / 4) + 1\<close> plus the
  modifier of dexterity, for a range above 5, or of strength, and \<^verbatim>\<open>NaN\<close> when the
  level or that score is absent; it reads neither \<^verbatim>\<open>attack.attackBonus\<close> nor
  \<^verbatim>\<open>attack.stat\<close>.
\<close>

theorem getAttackBonus_spec:
  "(\<forall>b. attackBonus w = Some b \<longrightarrow> getAttackBonus c w = Num b)
   \<and> (attackBonus w = None \<longrightarrow>
        (stats c = None \<longrightarrow> getAttackBonus c w = Num 0)
      \<and> (\<forall>sc. stats c = Some sc \<longrightarrow>
            (\<forall>v. sc (governingStat w) = Some v \<longrightarrow>
                 getAttackBonus c w = Num (proficiencyBonusOf c + getModifier v))
          \<and> (sc (governingStat w) = None \<and> governingStat w \<notin> set objectPrototypeKeys \<longrightarrow>
                 getAttackBonus c w = Num (proficiencyBonusOf c))
          \<and> (sc (governingStat w) = None \<and> governingStat w \<in> set objectPrototypeKeys \<longrightarrow>
                 getAttackBonus c w = NaN)))
   \<and> (getAttackBonus c w = NaN \<longleftrightarrow>
        attackBonus w = None
        \<and> (case stats c of Some sc \<Rightarrow> sc (governingStat w) = None | None \<Rightarrow> False)
        \<and> governingStat w \<in> set objectPrototypeKeys)
   \<and> (stats c = None \<longrightarrow> getAttackBonus_earlier c w = Inl TypeError)
   \<and> (\<forall>sc. stats c = Some sc \<longrightarrow>
         getAttackBonus_earlier c w =
           Inr (case (level c, sc (earlierStat w)) of
                  (Some l, Some v) \<Rightarrow> Num (\<lceil>(of_int l :: real) / 4\<rceil> + 1 + getModifier v)
                | _ \<Rightarrow> NaN))"
proof -
  have stat: "(if weapon_stat w \<noteq> None \<and> weapon_stat w \<noteq> Some []
               then the (weapon_stat w)
               else if weapon_category w = Some ''ranged'' \<or> weapon_type w = Some ''ranged''
                       \<or> (case weapon_range w of Some r \<Rightarrow> r \<noteq> 0 \<and> r > 1 | None \<Rightarrow> False)
                    then ''dexterite'' else ''force'') = governingStat w"
    by (auto simp: governingStat_def split: option.splits list.splits)
  have prof: "(case level c of
                 Some l \<Rightarrow> if l \<noteq> 0 then \<lceil>(of_int l :: real) / 4\<rceil> + 1 else 2
               | None \<Rightarrow> 2) = proficiencyBonusOf c"
    by (simp add: proficiencyBonusOf_def split: option.splits)
  have later: "getAttackBonus c w =
      (case attackBonus w of
         Some b \<Rightarrow> Num b
       | None \<Rightarrow>
           (case stats c of
              None \<Rightarrow> Num 0
            | Some sc \<Rightarrow>
                (case readStat sc (governingStat w) of
                   Undefined \<Rightarrow> Num (proficiencyBonusOf c)
                 | Number v \<Rightarrow> Num (getModifier v + proficiencyBonusOf c)
                 | Inherited \<Rightarrow> NaN)))"
    unfolding getAttackBonus_def Let_def stat prof ..
  have earlier: "getAttackBonus_earlier c w =
      (case stats c of
         None \<Rightarrow> Inl TypeError
       | Some sc \<Rightarrow>
           Inr (case (level c, sc (earlierStat w)) of
                  (Some l, Some v) \<Rightarrow> Num (\<lceil>(of_int l :: real) / 4\<rceil> + 1 + getModifier v)
                | _ \<Rightarrow> NaN))"
    by (simp add: getAttackBonus_earlier_def earlierStat_def split: option.splits)
  show ?thesis
    unfolding later earlier
    by (auto simp: readStat_def split: option.splits)
qed

theorem getAttackBonus_spec_witness:
  "getAttackBonus sampleCharacter sampleWeapon = Num 6
   \<and> getAttackBonus sampleCharacter (sampleWeapon\<lparr>attackBonus := Some 4\<rparr>) = Num 4
   \<and> getAttackBonus (sampleCharacter\<lparr>level := Some 0\<rparr>)
        (sampleWeapon\<lparr>weapon_stat := Some ''sagesse''\<rparr>) = Num 2
   \<and> getAttackBonus sampleCharacter (sampleWeapon\<lparr>weapon_stat := Some ''constructor''\<rparr>) = NaN
   \<and> getAttackBonus (sampleCharacter\<lparr>stats := None\<rparr>) sampleWeapon = Num 0
   \<and> getAttackBonus_earlier (sampleCharacter\<lparr>stats := None\<rparr>) sampleWeapon = Inl TypeError
   \<and> getAttackBonus_earlier sampleCharacter (sampleWeapon\<lparr>attackBonus := Some 4\<rparr>) = Inr (Num 6)
   \<and> getAttackBonus_earlier (sampleCharacter\<lparr>level := None\<rparr>) sampleWeapon = Inr NaN"
proof -
  have none: "attackBonus sampleWeapon = None"
    "attackBonus (sampleWeapon\<lparr>weapon_stat := x\<rparr>) = None" for x
    by (simp_all add: sampleWeapon_def)
  have gov: "governingStat sampleWeapon = ''force''"
    "governingStat (sampleWeapon\<lparr>weapon_stat := Some ''sagesse''\<rparr>) = ''sagesse''"
    "governingStat (sampleWeapon\<lparr>weapon_stat := Some ''constructor''\<rparr>) = ''constructor''"
    "earlierStat sampleWeapon = ''force''"
    "earlierStat (sampleWeapon\<lparr>attackBonus := Some 4\<rparr>) = ''force''"
    by (simp_all add: governingStat_def earlierStat_def sampleWeapon_def)
  have prof: "proficiencyBonusOf sampleCharacter = 3"
    "proficiencyBonusOf (sampleCharacter\<lparr>level := Some 0\<rparr>) = 2"
    by (simp_all add: proficiencyBonusOf_def sampleCharacter_def)
  define scores :: stats where
    "scores = [''force'' \<mapsto> 16, ''dexterite'' \<mapsto> 14, ''constitution'' \<mapsto> 13]"
  have st: "stats sampleCharacter = Some scores"
    "stats (sampleCharacter\<lparr>level := y\<rparr>) = Some scores"
    "level sampleCharacter = Some 5" "level (sampleCharacter\<lparr>level := y\<rparr>) = y" for y
    by (simp_all add: sampleCharacter_def scores_def)
  have look: "scores ''force'' = Some 16" "scores ''sagesse'' = None"
    "scores ''constructor'' = None"
    by (simp_all add: scores_def)
  have keys: "''sagesse'' \<notin> set objectPrototypeKeys" "''constructor'' \<in> set objectPrototypeKeys"
    by (simp_all add: objectPrototypeKeys_def)
  from getAttackBonus_spec [of sampleWeapon sampleCharacter] none st look
  have a: "getAttackBonus sampleCharacter sampleWeapon = Num 6"
    by (simp add: gov prof getModifier_def)
  from getAttackBonus_spec [of "sampleWeapon\<lparr>attackBonus := Some 4\<rparr>" sampleCharacter]
  have b: "getAttackBonus sampleCharacter (sampleWeapon\<lparr>attackBonus := Some 4\<rparr>) = Num 4"
    by simp
  from getAttackBonus_spec [of "sampleWeapon\<lparr>weapon_stat := Some ''sagesse''\<rparr>"
      "sampleCharacter\<lparr>level := Some 0\<rparr>"] none st look keys
  have c: "getAttackBonus (sampleCharacter\<lparr>level := Some 0\<rparr>)
        (sampleWeapon\<lparr>weapon_stat := Some ''sagesse''\<rparr>) = Num 2"
    by (simp add: gov prof)
  from getAttackBonus_spec [of "sampleWeapon\<lparr>weapon_stat := Some ''constructor''\<rparr>"
      sampleCharacter] none st look keys
  have d: "getAttackBonus sampleCharacter (sampleWeapon\<lparr>weapon_stat := Some ''constructor''\<rparr>) = NaN"
    by (simp add: gov)
  from getAttackBonus_spec [of sampleWeapon "sampleCharacter\<lparr>stats := None\<rparr>"] none
  have e: "getAttackBonus (sampleCharacter\<lparr>stats := None\<rparr>) sampleWeapon = Num 0"
    "getAttackBonus_earlier (sampleCharacter\<lparr>stats := None\<rparr>) sampleWeapon = Inl TypeError"
    by simp_all
  from getAttackBonus_spec [of "sampleWeapon\<lparr>attackBonus := Some 4\<rparr>" sampleCharacter] st look
  have f: "getAttackBonus_earlier sampleCharacter (sampleWeapon\<lparr>attackBonus := Some 4\<rparr>)
             = Inr (Num 6)"
    by (simp add: gov getModifier_def)
  from getAttackBonus_spec [of sampleWeapon "sampleCharacter\<lparr>level := None\<rparr>"] st
  have g: "getAttackBonus_earlier (sampleCharacter\<lparr>level := None\<rparr>) sampleWeapon = Inr NaN"
    by simp
  from a b c d e f g show ?thesis by simp
qed

text \<open>
  The claim as stated has the bonus fall back to the proficiency bonus when the
  attacker's stats are missing. For a level 5 character without \<^verbatim>\<open>stats\<close> that bonus
  is 3; the one revision returns 0, and the one of \<^verbatim>\<open>services/CombatService.js\<close>
  raises a TypeError.
\<close>

theorem getAttackBonus_no_stats_counterexample:
  "\<not> (getAttackBonus (sampleCharacter\<lparr>stats := None\<rparr>) sampleWeapon
        = Num (specProficiencyBonus (sampleCharacter\<lparr>stats := None\<rparr>))
      \<or> getAttackBonus_earlier (sampleCharacter\<lparr>stats := None\<rparr>) sampleWeapon
        = Inr (Num (specProficiencyBonus (sampleCharacter\<lparr>stats := None\<rparr>))))"
  by (simp add: getAttackBonus_def getAttackBonus_earlier_def specProficiencyBonus_def
      sampleCharacter_def sampleWeapon_def)

section \<open>Enemy instances\<close>

text \<open>
  A group of a known type expands into its instances when its count is an array length;
  a group of an unknown type expands into nothing. No run of the expansion ends in the
  configuration error.
\<close>

lemma expandGroup_known:
  assumes "registry (encounter_type g) \<noteq> None"
    and "0 \<le> encounter_count g" and "encounter_count g < 2 ^ 32"
  shows "expandGroup registry g j = Inr (instancesOf registry (j, g))"
  using assms by (auto simp: expandGroup_def instancesOf_def)

lemma expandGroup_unknown:
  "registry (encounter_type g) = None \<Longrightarrow> expandGroup registry g j = Inr []"
  by (simp add: expandGroup_def)

lemma flatMapGroups_known:
  assumes "\<forall>g \<in> set groups. registry (encounter_type g) \<noteq> None \<longrightarrow>
             0 \<le> encounter_count g \<and> encounter_count g < 2 ^ 32"
  shows "flatMapGroups registry groups i =
           Inr (concat (map (instancesOf registry)
                  (filter (\<lambda>(j, g). registry (encounter_type g) \<noteq> None) (enumerate i groups))))"
  using assms
proof (induction groups arbitrary: i)
  case Nil
  then show ?case by simp
next
  case (Cons g groups)
  then have rest: "flatMapGroups registry groups (i + 1) =
           Inr (concat (map (instancesOf registry)
                  (filter (\<lambda>(j, g). registry (encounter_type g) \<noteq> None) (enumerate (i + 1) groups))))"
    by simp
  show ?case
  proof (cases "registry (encounter_type g)")
    case None
    then show ?thesis using rest by (simp add: expandGroup_unknown)
  next
    case (Some t)
    with Cons.prems have "expandGroup registry g i = Inr (instancesOf registry (i, g))"
      by (intro expandGroup_known) simp_all
    then show ?thesis using rest Some by simp
  qed
qed

lemma flatMapGroups_not_configuration_error:
  "flatMapGroups registry groups i \<noteq> Inl NoEnemiesDefined"
  by (induction groups arbitrary: i)
     (auto simp: expandGroup_def split: sum.splits option.splits if_splits)

text \<open>
  Claim C7. \<^verbatim>\<open>createEnemiesFromEncounter\<close> raises the configuration error exactly when
  the specification has no enemy group. With at least one group, and the count of every
  group of a known type an array length (an integer from 0 to \<open>2 ^ 32 - 1\<close>), it does
  not raise: it returns the instances of the groups whose type the registry knows, group
  after group, each group keeping its position in the specification for the identifiers;
  the groups of an unknown type contribute nothing.
\<close>

theorem createEnemiesFromEncounter_spec:
  "(createEnemiesFromEncounter registry spec = Inl NoEnemiesDefined \<longleftrightarrow> groupsOf spec = [])
   \<and> (groupsOf spec \<noteq> []
        \<and> (\<forall>g \<in> set (groupsOf spec). registry (encounter_type g) \<noteq> None \<longrightarrow>
               0 \<le> encounter_count g \<and> encounter_count g < 2 ^ 32)
      \<longrightarrow> createEnemiesFromEncounter registry spec =
            Inr (concat (map (instancesOf registry) (knownGroups registry (groupsOf spec)))))"
proof (cases "groupsOf spec")
  case Nil
  then have "createEnemiesFromEncounter registry spec = Inl NoEnemiesDefined"
    by (auto simp: createEnemiesFromEncounter_def groupsOf_def split: option.splits)
  with Nil show ?thesis by simp
next
  case (Cons g groups)
  then have run: "createEnemiesFromEncounter registry spec = flatMapGroups registry (g # groups) 0"
    by (auto simp: createEnemiesFromEncounter_def groupsOf_def split: option.splits)
  have "createEnemiesFromEncounter registry spec \<noteq> Inl NoEnemiesDefined"
    unfolding run by (rule flatMapGroups_not_configuration_error)
  moreover have "createEnemiesFromEncounter registry spec =
            Inr (concat (map (instancesOf registry) (knownGroups registry (groupsOf spec))))"
    if "\<forall>g \<in> set (groupsOf spec). registry (encounter_type g) \<noteq> None \<longrightarrow>
               0 \<le> encounter_count g \<and> encounter_count g < 2 ^ 32"
    unfolding run knownGroups_def Cons
    using that unfolding Cons by (rule flatMapGroups_known)
  ultimately show ?thesis using Cons by simp
qed

theorem createEnemiesFromEncounter_spec_witness:
  "map entity_id (projr (createEnemiesFromEncounter sampleTemplates sampleEncounter))
     = [Some ''gobelin_1_0'', Some ''gobelin_1_1'']
   \<and> map name (projr (createEnemiesFromEncounter sampleTemplates sampleEncounter))
     = [''Gobelin 1'', ''Gobelin 2'']
   \<and> isl (createEnemiesFromEncounter sampleTemplates sampleEncounter) = False
   \<and> createEnemiesFromEncounter sampleTemplates (Some \<lparr>encounter_enemies = Some []\<rparr>)
     = Inl NoEnemiesDefined"
proof -
  have groups: "groupsOf sampleEncounter =
      [\<lparr>encounter_type = ''dragon'', encounter_count = 1\<rparr>,
       \<lparr>encounter_type = ''gobelin'', encounter_count = 2\<rparr>]"
    by (simp add: groupsOf_def sampleEncounter_def)
  have counts: "\<forall>g \<in> set (groupsOf sampleEncounter). sampleTemplates (encounter_type g) \<noteq> None \<longrightarrow>
               0 \<le> encounter_count g \<and> encounter_count g < 2 ^ 32"
    unfolding groups by simp
  have known: "knownGroups sampleTemplates (groupsOf sampleEncounter) =
      [(1, \<lparr>encounter_type = ''gobelin'', encounter_count = 2\<rparr>)]"
    unfolding groups by (simp add: knownGroups_def sampleTemplates_def)
  have two: "[0..<2] = [0, Suc 0]"
    by (simp add: upt_rec)
  from createEnemiesFromEncounter_spec [of sampleTemplates sampleEncounter] counts
  have "createEnemiesFromEncounter sampleTemplates sampleEncounter =
          Inr (concat (map (instancesOf sampleTemplates)
                 (knownGroups sampleTemplates (groupsOf sampleEncounter))))"
    by (simp add: groups)
  then have a: "createEnemiesFromEncounter sampleTemplates sampleEncounter =
          Inr (instancesOf sampleTemplates (1, \<lparr>encounter_type = ''gobelin'', encounter_count = 2\<rparr>))"
    by (simp add: known)
  have e: "groupsOf (Some \<lparr>encounter_enemies = Some []\<rparr>) = []"
    by (simp add: groupsOf_def)
  with createEnemiesFromEncounter_spec [of sampleTemplates "Some \<lparr>encounter_enemies = Some []\<rparr>"]
  have b: "createEnemiesFromEncounter sampleTemplates (Some \<lparr>encounter_enemies = Some []\<rparr>)
     = Inl NoEnemiesDefined"
    by simp
  show ?thesis
    unfolding a using b
    by (simp add: instancesOf_def two enemyInstance_def sampleTemplates_def showNat.simps)
qed

section \<open>Attacking a fallen target\<close>

text \<open>
  Claim C8 at a target that is the combatant itself, at 0 hit points, with no
  \<^verbatim>\<open>character\<close> field: the guard looks at \<^verbatim>\<open>target.character\<close> only, so the d20 is
  rolled and the attack misses (one draw) or hits (a critical hit here, with the damage
  roll: two draws).
\<close>

theorem executeEntityAttack_fallen_unwrapped:
  "currentHP fallenCombatant \<le> 0
   \<and> executeEntityAttack (constantRandom (1 / 2)) (Some sampleEnemy) (Some sampleWeapon)
        (Some fallenCombatant) ([], 0)
      = (\<lparr>success = False, outcome_damage = 0, critical = None\<rparr>,
         [(EntityMissText ''Gobelin'' ''Elarion'' ''Epee longue'' 12 15, Some ''miss'')], 1)
   \<and> executeEntityAttack (constantRandom (19 / 20)) (Some sampleEnemy) (Some sampleWeapon)
        (Some fallenCombatant) ([], 0)
      = (\<lparr>success = True, outcome_damage = 20, critical = Some True\<rparr>,
         [(EntityCriticalText ''Gobelin'' ''Epee longue'' 20 ''Elarion'', Some ''critical'')], 2)"
proof -
  have dmg: "rollDamage (constantRandom (19 / 20)) ''1d8+2'' (Suc 0) = (10, 2)"
    by (simp add: rollDamage_def matchHere_def isDigit_def parseInt_def digitValue_def
        rollDamage_loop.simps rollDie_def constantRandom_def)
  have bonus: "getAttackBonus sampleEnemy sampleWeapon = Num 1"
    by (simp add: getAttackBonus_def readStat_def sampleEnemy_def sampleWeapon_def getModifier_def)
  have roll: "rollD20 (constantRandom (1 / 2)) 0 = (11, Suc 0)"
    "rollD20 (constantRandom (19 / 20)) 0 = (20, Suc 0)"
    by (simp_all add: rollD20_def rollDie_def constantRandom_def)
  have w: "damage sampleWeapon = Some ''1d8+2''" "damageDice sampleWeapon = None"
    "attack_name sampleWeapon = ''Epee longue''"
    by (simp_all add: sampleWeapon_def)
  have e: "name sampleEnemy = ''Gobelin''" by (simp add: sampleEnemy_def)
  show ?thesis
    by (simp add: executeEntityAttack_def roll bonus dmg w e fallenCombatant_def)
qed

text \<open>
  For a target that wraps a character at 0 hit points or less the guard does what the
  claim says: failure, no damage, the narrative of the fallen target, and no draw.
\<close>

theorem executeEntityAttack_fallen_wrapped:
  assumes "target_character tgt = Some c" and "currentHP c \<le> 0"
  shows "executeEntityAttack rnd (Some attacker) (Some atk) (Some tgt) (entries, k) =
           (\<lparr>success = False, outcome_damage = 0, critical = None\<rparr>,
            entries @ [(AlreadyFallenText (name attacker) (name tgt), None)], k)"
  using assms by (simp add: executeEntityAttack_def)

theorem executeEntityAttack_fallen_wrapped_witness:
  "executeEntityAttack (constantRandom (19 / 20)) (Some sampleEnemy) (Some sampleWeapon)
     (Some fallenWrapped) ([], 0)
   = (\<lparr>success = False, outcome_damage = 0, critical = None\<rparr>,
      [(AlreadyFallenText ''Gobelin'' ''Elarion'', None)], 0)"
proof -
  have "target_character fallenWrapped = Some (sampleCharacter\<lparr>currentHP := 0\<rparr>)"
    "currentHP (sampleCharacter\<lparr>currentHP := 0\<rparr>) \<le> 0"
    by (simp_all add: fallenWrapped_def)
  from executeEntityAttack_fallen_wrapped [OF this, of "constantRandom (19 / 20)" sampleEnemy
      sampleWeapon "[]" 0]
  show ?thesis by (simp add: sampleEnemy_def fallenWrapped_def fallenCombatant_def)
qed

section \<open>Initiative order\<close>

text \<open>
  On combatants that all have an initiative, the comparison function of
  \<^verbatim>\<open>rollInitiative\<close> is the order of the key, so that its sort is the stable sort by
  that key. With ability scores that hold a dexterity, every roll succeeds and the list
  handed to the sort is the list of entrants.
\<close>

lemma mayPrecede_key: "mayPrecede a b \<longleftrightarrow> initiativeKey a \<le> initiativeKey b"
  by (auto simp: mayPrecede_def initiativeKey_def)

lemma compareInitiative_key:
  assumes "initiative a \<noteq> None" and "initiative b \<noteq> None"
  shows "compareInitiative a b \<le> 0 \<longleftrightarrow> initiativeKey a \<le> initiativeKey b"
  using assms by (auto simp: compareInitiative_def initiativeKey_def rank_def)

lemma insertSorted_key:
  assumes "initiative x \<noteq> None" and "\<forall>y \<in> set ys. initiative y \<noteq> None"
  shows "insertSorted compareInitiative x ys = insort_key initiativeKey x ys"
  using assms by (induction ys) (simp_all add: compareInitiative_key)

lemma sortBy_key:
  assumes "\<forall>x \<in> set xs. initiative x \<noteq> None"
  shows "sortBy compareInitiative xs = sort_key initiativeKey xs"
  using assms
proof (induction xs)
  case Nil
  then show ?case by (simp add: sortBy_def)
next
  case (Cons x xs)
  then have "sortBy compareInitiative xs = sort_key initiativeKey xs" by simp
  moreover have "\<forall>y \<in> set (sort_key initiativeKey xs). initiative y \<noteq> None"
    using Cons.prems by simp
  ultimately show ?case
    using Cons.prems by (simp add: sortBy_def insertSorted_key)
qed

lemma initiativeRoll_ok:
  "hasDexterity c \<Longrightarrow> initiativeRoll rnd c k = Inr (initiativeOf rnd k c, k + 1)"
  by (auto simp: hasDexterity_def initiativeRoll_def initiativeOf_def rollD20_def
      split: option.splits)

lemma pushEnemies_ok:
  assumes "\<forall>e \<in> set foes. hasDexterity e"
  shows "pushEnemies rnd foes (acc, k) =
           Inr (acc @ map (\<lambda>(j, e). e\<lparr>initiative := Some (initiativeOf rnd j e)\<rparr>) (enumerate k foes),
                k + length foes)"
  using assms
proof (induction foes arbitrary: acc k)
  case Nil
  then show ?case by simp
next
  case (Cons e foes)
  then have "initiativeRoll rnd e k = Inr (initiativeOf rnd k e, k + 1)"
    by (simp add: initiativeRoll_ok)
  moreover have "pushEnemies rnd foes (acc @ [e\<lparr>initiative := Some (initiativeOf rnd k e)\<rparr>], k + 1) =
      Inr ((acc @ [e\<lparr>initiative := Some (initiativeOf rnd k e)\<rparr>])
             @ map (\<lambda>(j, e). e\<lparr>initiative := Some (initiativeOf rnd j e)\<rparr>) (enumerate (k + 1) foes),
           k + 1 + length foes)"
    using Cons.prems by (intro Cons.IH) simp
  ultimately show ?case by simp
qed

lemma length_entrants:
  "length (entrants rnd p companion foes k) =
     1 + (case companion of None \<Rightarrow> 0 | Some c \<Rightarrow> 1) + length foes"
  by (simp add: entrants_def split: option.splits)

lemma rollInitiative_run:
  assumes "hasDexterity p"
    and "case companion of None \<Rightarrow> True | Some c \<Rightarrow> hasDexterity c"
    and "\<forall>e \<in> set foes. hasDexterity e"
  shows "rollInitiative rnd (Some p) companion foes k =
           Inr (sortBy compareInitiative (entrants rnd p companion foes k),
                k + length (entrants rnd p companion foes k))"
proof -
  from assms(1) have st: "stats p \<noteq> None"
    by (auto simp: hasDexterity_def split: option.splits)
  show ?thesis
  proof (cases companion)
    case None
    then show ?thesis
      using st assms
      by (simp add: rollInitiative_def initiativeRoll_ok pushEnemies_ok entrants_def)
  next
    case (Some c)
    then show ?thesis
      using st assms
      by (simp add: rollInitiative_def initiativeRoll_ok pushEnemies_ok entrants_def)
  qed
qed

lemma entrants_initiative:
  "\<forall>c \<in> set (entrants rnd p companion foes k). initiative c \<noteq> None"
  by (auto simp: entrants_def in_set_enumerate_eq split: option.splits)

text \<open>
  Claim C6. For a player, an optional companion and enemies that all have ability scores
  with a dexterity, the enemies carrying the type \<^verbatim>\<open>enemy\<close>, \<^verbatim>\<open>rollInitiative\<close>
  returns a permutation of the entrants (the player, the companion if there is one, every
  enemy, each with the initiative d20 + dexterity modifier of its own draw). In the
  returned order every combatant may precede all those after it: its initiative is higher,
  or equal with the priority player, companion, enemy. The enemies of one initiative stand
  in the order in which they were given. Without a player, or with a player without
  \<^verbatim>\<open>stats\<close>, the error is raised.
\<close>

theorem rollInitiative_spec:
  "(hasDexterity p
      \<and> (case companion of None \<Rightarrow> True | Some c \<Rightarrow> hasDexterity c)
      \<and> (\<forall>e \<in> set foes. hasDexterity e \<and> entity_type e = Some ''enemy'')
    \<longrightarrow> (\<exists>order.
           rollInitiative rnd (Some p) companion foes k =
             Inr (order, k + length (entrants rnd p companion foes k))
         \<and> mset order = mset (entrants rnd p companion foes k)
         \<and> sorted_wrt mayPrecede order
         \<and> (\<forall>v. filter (\<lambda>c. entity_type c = Some ''enemy'' \<and> initiative c = Some v) order
                = filter (\<lambda>c. entity_type c = Some ''enemy'' \<and> initiative c = Some v)
                    (entrants rnd p companion foes k))))
   \<and> rollInitiative rnd None companion foes k = Inl PlayerRequired
   \<and> (stats p = None \<longrightarrow> rollInitiative rnd (Some p) companion foes k = Inl PlayerRequired)"
proof (intro conjI impI)
  assume wf: "hasDexterity p
      \<and> (case companion of None \<Rightarrow> True | Some c \<Rightarrow> hasDexterity c)
      \<and> (\<forall>e \<in> set foes. hasDexterity e \<and> entity_type e = Some ''enemy'')"
  let ?es = "entrants rnd p companion foes k"
  let ?order = "sort_key initiativeKey ?es"
  have run: "rollInitiative rnd (Some p) companion foes k = Inr (?order, k + length ?es)"
    using wf by (simp add: rollInitiative_run sortBy_key entrants_initiative)
  have perm: "mset ?order = mset ?es" by simp
  have "sorted (map initiativeKey ?order)" by simp
  then have ordered: "sorted_wrt mayPrecede ?order"
    by (simp add: sorted_map mayPrecede_key [abs_def])
  have stable: "filter (\<lambda>c. entity_type c = Some ''enemy'' \<and> initiative c = Some v) ?order
                = filter (\<lambda>c. entity_type c = Some ''enemy'' \<and> initiative c = Some v) ?es" for v
  proof -
    have same: "(entity_type c = Some ''enemy'' \<and> initiative c = Some v)
                 \<longleftrightarrow> (entity_type c = Some ''enemy'' \<and> initiativeKey c = (- v, 2))"
      if "initiative c \<noteq> None" for c
      using that by (auto simp: initiativeKey_def rank_def)
    have "filter (\<lambda>c. entity_type c = Some ''enemy'' \<and> initiative c = Some v) ?order
            = filter (\<lambda>c. entity_type c = Some ''enemy'' \<and> initiativeKey c = (- v, 2)) ?order"
      by (rule filter_cong [OF refl]) (use same entrants_initiative in auto)
    also have "\<dots> = filter (\<lambda>c. entity_type c = Some ''enemy'')
                        (filter (\<lambda>c. initiativeKey c = (- v, 2)) ?order)"
      by (simp add: conj_commute)
    also have "\<dots> = filter (\<lambda>c. entity_type c = Some ''enemy'')
                        (filter (\<lambda>c. initiativeKey c = (- v, 2)) ?es)"
      by (simp only: sort_key_stable)
    also have "\<dots> = filter (\<lambda>c. entity_type c = Some ''enemy'' \<and> initiativeKey c = (- v, 2)) ?es"
      by (simp add: conj_commute)
    also have "\<dots> = filter (\<lambda>c. entity_type c = Some ''enemy'' \<and> initiative c = Some v) ?es"
      by (rule filter_cong [OF refl]) (use same entrants_initiative in auto)
    finally show ?thesis .
  qed
  from run perm ordered stable
  show "\<exists>order.
           rollInitiative rnd (Some p) companion foes k =
             Inr (order, k + length (entrants rnd p companion foes k))
         \<and> mset order = mset (entrants rnd p companion foes k)
         \<and> sorted_wrt mayPrecede order
         \<and> (\<forall>v. filter (\<lambda>c. entity_type c = Some ''enemy'' \<and> initiative c = Some v) order
                = filter (\<lambda>c. entity_type c = Some ''enemy'' \<and> initiative c = Some v)
                    (entrants rnd p companion foes k))"
    by blast
next
  show "rollInitiative rnd None companion foes k = Inl PlayerRequired"
    by (simp add: rollInitiative_def)
next
  assume "stats p = None"
  then show "rollInitiative rnd (Some p) companion foes k = Inl PlayerRequired"
    by (simp add: rollInitiative_def)
qed


theorem rollInitiative_spec_witness:
  "(\<exists>order.
       rollInitiative sampleDraws (Some sampleCharacter) None sampleFoes 0 =
         Inr (order, 0 + length (entrants sampleDraws sampleCharacter None sampleFoes 0))
     \<and> mset order = mset (entrants sampleDraws sampleCharacter None sampleFoes 0)
     \<and> sorted_wrt mayPrecede order
     \<and> (\<forall>v. filter (\<lambda>c. entity_type c = Some ''enemy'' \<and> initiative c = Some v) order
            = filter (\<lambda>c. entity_type c = Some ''enemy'' \<and> initiative c = Some v)
                (entrants sampleDraws sampleCharacter None sampleFoes 0)))
   \<and> map (\<lambda>c. (name c, initiative c))
        (fst (projr (rollInitiative sampleDraws (Some sampleCharacter) None sampleFoes 0)))
      = [(''Gobelin 2'', Some 22), (''Elarion'', Some 13), (''Gobelin'', Some 13)]
   \<and> rollInitiative sampleDraws None None sampleFoes 0 = Inl PlayerRequired"
proof -
  have wf: "hasDexterity sampleCharacter
      \<and> (case None :: character option of None \<Rightarrow> True | Some c \<Rightarrow> hasDexterity c)
      \<and> (\<forall>e \<in> set sampleFoes. hasDexterity e \<and> entity_type e = Some ''enemy'')"
    by (simp add: hasDexterity_def sampleCharacter_def sampleFoes_def sampleEnemy_def)
  note spec = rollInitiative_spec [of sampleCharacter None sampleFoes sampleDraws 0]
  from spec wf have first: "\<exists>order.
       rollInitiative sampleDraws (Some sampleCharacter) None sampleFoes 0 =
         Inr (order, 0 + length (entrants sampleDraws sampleCharacter None sampleFoes 0))
     \<and> mset order = mset (entrants sampleDraws sampleCharacter None sampleFoes 0)
     \<and> sorted_wrt mayPrecede order
     \<and> (\<forall>v. filter (\<lambda>c. entity_type c = Some ''enemy'' \<and> initiative c = Some v) order
            = filter (\<lambda>c. entity_type c = Some ''enemy'' \<and> initiative c = Some v)
                (entrants sampleDraws sampleCharacter None sampleFoes 0))"
    by blast
  from spec have third: "rollInitiative sampleDraws None None sampleFoes 0 = Inl PlayerRequired"
    by blast
  have second: "map (\<lambda>c. (name c, initiative c))
        (fst (projr (rollInitiative sampleDraws (Some sampleCharacter) None sampleFoes 0)))
      = [(''Gobelin 2'', Some 22), (''Elarion'', Some 13), (''Gobelin'', Some 13)]"
    by (simp add: rollInitiative_def initiativeRoll_def rollD20_def rollDie_def sampleDraws_def
        getModifier_def sortBy_def compareInitiative_def sampleCharacter_def sampleFoes_def
        sampleEnemy_def)
  from first second third show ?thesis by blast
qed

section \<open>Healing in the character store\<close>

text \<open>
  Writing a character into the store makes it the target; taking an item out of the
  inventory leaves the hit points alone; and the effects of an item, applied in turn,
  keep the hit points at or under the maximum, and at or above 0 when no healing amount
  is negative.
\<close>

lemma targetOf_setCharacter: "targetOf who (setCharacter who c state) = Some c"
  by (simp add: targetOf_def setCharacter_def)

lemma removeItemFromInventory_hp:
  assumes "targetOf who state = Some c"
  shows "\<exists>c'. targetOf who (removeItemFromInventory itemId who n state) = Some c'
            \<and> currentHP c' = currentHP c \<and> maxHP c' = maxHP c"
  using assms
  by (auto simp: removeItemFromInventory_def targetOf_setCharacter Let_def split: option.splits)

lemma applyEffects_hp:
  assumes "foldl (\<lambda>st e. applyEffect c e st) (u, m) effs = (u', m')"
    and "maxHP u = maxHP c"
  shows "maxHP u' = maxHP c
       \<and> (currentHP u \<le> maxHP c \<longrightarrow> currentHP u' \<le> maxHP c)
       \<and> (0 \<le> currentHP u \<and> 0 \<le> currentHP c \<and> 0 \<le> maxHP c
            \<and> list_all (\<lambda>e. effect_type e \<noteq> ''heal'' \<or> 0 \<le> effect_value e) effs
          \<longrightarrow> 0 \<le> currentHP u')"
  using assms
proof (induction effs arbitrary: u m)
  case Nil
  then show ?case by simp
next
  case (Cons e effs)
  obtain u1 m1 where step: "applyEffect c e (u, m) = (u1, m1)"
    by (cases "applyEffect c e (u, m)")
  with Cons.prems have rest: "foldl (\<lambda>st e. applyEffect c e st) (u1, m1) effs = (u', m')"
    by simp
  from step Cons.prems(2) have u1: "maxHP u1 = maxHP c"
    "currentHP u \<le> maxHP c \<longrightarrow> currentHP u1 \<le> maxHP c"
    "0 \<le> currentHP u \<and> 0 \<le> currentHP c \<and> 0 \<le> maxHP c
       \<and> (effect_type e \<noteq> ''heal'' \<or> 0 \<le> effect_value e) \<longrightarrow> 0 \<le> currentHP u1"
    by (auto simp: applyEffect_def Let_def split: if_splits)
  from Cons.IH [OF rest u1(1)] u1(2,3) show ?case by auto
qed

text \<open>
  Claim C9. Let the targeted character of the store have hit points from 0 to its
  maximum. \<^verbatim>\<open>spendHitDie\<close>, for a character with a constitution and hit dice, returns
  a store whose targeted character again has hit points from 0 to the same maximum,
  whatever the die shows. So does \<^verbatim>\<open>useItem\<close> for a character with an inventory, when
  the item found goes through its \<^verbatim>\<open>effects\<close> and its healing amounts are not
  negative, however large they are. (An item served by a \<^verbatim>\<open>use\<close> function of the
  registry is changed by that function, which is not part of the store.)
\<close>

theorem healing_keeps_hp_in_range:
  assumes "targetOf who state = Some c"
    and "0 \<le> currentHP c" and "currentHP c \<le> maxHP c"
  shows "(hasConstitution c \<and> hitDice c \<noteq> None \<longrightarrow>
           (\<exists>state' k' c'. spendHitDie rnd who (state, k) = Inr (state', k')
              \<and> targetOf who state' = Some c'
              \<and> 0 \<le> currentHP c' \<and> currentHP c' \<le> maxHP c' \<and> maxHP c' = maxHP c))
       \<and> (inventory c \<noteq> None
            \<and> (case itemInUse itemId c of
                  None \<Rightarrow> True
                | Some it \<Rightarrow> healsThroughEffects items itemId it) \<longrightarrow>
           (\<exists>outcome state' c'. useItem items itemId who state = Inr (outcome, state')
              \<and> targetOf who state' = Some c'
              \<and> 0 \<le> currentHP c' \<and> currentHP c' \<le> maxHP c' \<and> maxHP c' = maxHP c))"
proof (intro conjI impI)
  assume "hasConstitution c \<and> hitDice c \<noteq> None"
  then obtain sc con h where c: "stats c = Some sc" "sc ''constitution'' = Some con"
      "hitDice c = Some h"
    by (auto simp: hasConstitution_def split: option.splits)
  show "\<exists>state' k' c'. spendHitDie rnd who (state, k) = Inr (state', k')
              \<and> targetOf who state' = Some c'
              \<and> 0 \<le> currentHP c' \<and> currentHP c' \<le> maxHP c' \<and> maxHP c' = maxHP c"
  proof (cases "h \<le> 0 \<or> currentHP c \<ge> maxHP c")
    case True
    then have "spendHitDie rnd who (state, k) = Inr (state, k)"
      using assms(1) c by (auto simp: spendHitDie_def)
    with assms show ?thesis by simp
  next
    case False
    define healing where "healing =
      max 1 (rollDie (rnd k) (case hitDiceType c of Some t \<Rightarrow> if t \<noteq> 0 then t else 8 | None \<Rightarrow> 8)
             + (con - 10) div 2)"
    define c' where "c' = c\<lparr>currentHP := min (maxHP c) (currentHP c + healing), hitDice := Some (h - 1)\<rparr>"
    have run: "spendHitDie rnd who (state, k) = Inr (setCharacter who c' state, k + 1)"
      using False assms(1) c by (simp add: spendHitDie_def Let_def c'_def healing_def)
    have "1 \<le> healing" by (simp add: healing_def)
    with assms(2,3) have "0 \<le> currentHP c'" "currentHP c' \<le> maxHP c'" "maxHP c' = maxHP c"
      by (simp_all add: c'_def)
    with run show ?thesis by (simp add: targetOf_setCharacter)
  qed
next
  assume hyp: "inventory c \<noteq> None
            \<and> (case itemInUse itemId c of
                  None \<Rightarrow> True
                | Some it \<Rightarrow> healsThroughEffects items itemId it)"
  then obtain owned where owned: "inventory c = Some owned" by auto
  have unchanged: "\<exists>outcome state' c'. r = Inr (outcome, state')
              \<and> targetOf who state' = Some c'
              \<and> 0 \<le> currentHP c' \<and> currentHP c' \<le> maxHP c' \<and> maxHP c' = maxHP c"
    if "\<exists>outcome. r = Inr (outcome, state)" for r :: "error + use_result \<times> store"
    using that assms by auto
  show "\<exists>outcome state' c'. useItem items itemId who state = Inr (outcome, state')
              \<and> targetOf who state' = Some c'
              \<and> 0 \<le> currentHP c' \<and> currentHP c' \<le> maxHP c' \<and> maxHP c' = maxHP c"
  proof (cases "find (\<lambda>i. itemKey i = Some itemId) owned")
    case None
    then show ?thesis
      using assms(1) owned by (intro unchanged) (simp add: useItem_def)
  next
    case (Some it)
    with hyp owned have hte: "healsThroughEffects items itemId it"
      by (simp add: itemInUse_def)
    then have nouse: "(case lookupItemData items itemId it of
                         Some itemData \<Rightarrow> (case data_use itemData of
                                              Some f \<Rightarrow> Some (itemData, f) | None \<Rightarrow> None)
                       | None \<Rightarrow> None) = None"
      by (auto simp: healsThroughEffects_def split: option.splits)
    show ?thesis
    proof (cases "effects it")
      case None
      then show ?thesis
        using assms(1) owned Some nouse by (intro unchanged) (simp add: useItem_def)
    next
      case effs: (Some effs)
      obtain u' m' where fold: "foldl (\<lambda>st e. applyEffect c e st)
          (c, ItemUsed (if truthy (item_name it) then item_name it else item_nom it)) effs = (u', m')"
        by (cases "foldl (\<lambda>st e. applyEffect c e st)
          (c, ItemUsed (if truthy (item_name it) then item_name it else item_nom it)) effs")
      from hte effs have nonneg: "list_all (\<lambda>e. effect_type e \<noteq> ''heal'' \<or> 0 \<le> effect_value e) effs"
        by (simp add: healsThroughEffects_def)
      from applyEffects_hp [OF fold refl] assms(2,3) nonneg
      have u': "maxHP u' = maxHP c" "currentHP u' \<le> maxHP c" "0 \<le> currentHP u'"
        by auto
      define state1 where "state1 = setCharacter who u' state"
      have t1: "targetOf who state1 = Some u'"
        by (simp add: state1_def targetOf_setCharacter)
      define state2 where "state2 =
        (if consumable it \<or> item_type it = Some ''consumable''
         then removeItemFromInventory itemId who 1 state1 else state1)"
      have run: "useItem items itemId who state = Inr (\<lparr>use_success = True, use_message = m'\<rparr>, state2)"
        using assms(1) owned Some nouse effs fold
        by (simp add: useItem_def state2_def state1_def setCharacter_def)
      have "\<exists>c'. targetOf who state2 = Some c' \<and> currentHP c' = currentHP u'
                  \<and> maxHP c' = maxHP u'"
      proof (cases "consumable it \<or> item_type it = Some ''consumable''")
        case True
        then have "state2 = removeItemFromInventory itemId who 1 state1"
          by (simp add: state2_def)
        with removeItemFromInventory_hp [OF t1, of itemId 1] show ?thesis by simp
      next
        case False
        then have "state2 = state1" by (simp add: state2_def)
        with t1 show ?thesis by simp
      qed
      then obtain c' where "targetOf who state2 = Some c'" "currentHP c' = currentHP u'"
          "maxHP c' = maxHP u'"
        by blast
      with u' run show ?thesis by simp
    qed
  qed
qed


theorem healing_keeps_hp_in_range_witness:
  "(\<exists>state' k' c'.
      spendHitDie (constantRandom (1 / 2)) ''player'' (sampleStore, 0) = Inr (state', k')
      \<and> targetOf ''player'' state' = Some c'
      \<and> 0 \<le> currentHP c' \<and> currentHP c' \<le> maxHP c' \<and> maxHP c' = 24)
   \<and> (\<exists>outcome state' c'.
         useItem Map.empty ''potionOfHealing'' ''player'' sampleStore = Inr (outcome, state')
         \<and> targetOf ''player'' state' = Some c'
         \<and> 0 \<le> currentHP c' \<and> currentHP c' \<le> maxHP c' \<and> maxHP c' = 24)
   \<and> map_option currentHP (targetOf ''player''
         (fst (projr (spendHitDie (constantRandom (1 / 2)) ''player'' (sampleStore, 0))))) = Some 17
   \<and> map_option currentHP (targetOf ''player''
         (snd (projr (useItem Map.empty ''potionOfHealing'' ''player'' sampleStore)))) = Some 24"
proof -
  define c where "c = sampleCharacter\<lparr>inventory := Some [samplePotion]\<rparr>"
  have target: "targetOf ''player'' sampleStore = Some c"
    by (simp add: targetOf_def sampleStore_def c_def)
  have hp: "0 \<le> currentHP c" "currentHP c \<le> maxHP c" "maxHP c = 24"
    by (simp_all add: c_def sampleCharacter_def)
  have con: "hasConstitution c \<and> hitDice c \<noteq> None"
    by (simp add: hasConstitution_def c_def sampleCharacter_def)
  have potion: "itemInUse ''potionOfHealing'' c = Some samplePotion"
    by (simp add: itemInUse_def c_def itemKey_def truthy_def samplePotion_def)
  have effects: "healsThroughEffects Map.empty ''potionOfHealing'' samplePotion"
    by (simp add: healsThroughEffects_def lookupItemData_def samplePotion_def)
  have inv: "inventory c \<noteq> None
            \<and> (case itemInUse ''potionOfHealing'' c of
                  None \<Rightarrow> True
                | Some it \<Rightarrow> healsThroughEffects Map.empty ''potionOfHealing'' it)"
    by (simp add: potion effects) (simp add: c_def)
  note range = healing_keeps_hp_in_range [OF target hp(1,2),
      where rnd = "constantRandom (1 / 2)" and k = 0 and itemId = "''potionOfHealing''"
        and items = Map.empty]
  from range con have first: "\<exists>state' k' c'.
      spendHitDie (constantRandom (1 / 2)) ''player'' (sampleStore, 0) = Inr (state', k')
      \<and> targetOf ''player'' state' = Some c'
      \<and> 0 \<le> currentHP c' \<and> currentHP c' \<le> maxHP c' \<and> maxHP c' = 24"
    unfolding hp(3) by blast
  from range inv have second: "\<exists>outcome state' c'.
         useItem Map.empty ''potionOfHealing'' ''player'' sampleStore = Inr (outcome, state')
         \<and> targetOf ''player'' state' = Some c'
         \<and> 0 \<le> currentHP c' \<and> currentHP c' \<le> maxHP c' \<and> maxHP c' = 24"
    unfolding hp(3) by blast
  have third: "map_option currentHP (targetOf ''player''
         (fst (projr (spendHitDie (constantRandom (1 / 2)) ''player'' (sampleStore, 0))))) = Some 17"
    by (simp add: spendHitDie_def targetOf_def setCharacter_def sampleStore_def
        sampleCharacter_def rollDie_def constantRandom_def)
  have fourth: "map_option currentHP (targetOf ''player''
         (snd (projr (useItem Map.empty ''potionOfHealing'' ''player'' sampleStore)))) = Some 24"
    by (simp add: useItem_def targetOf_def setCharacter_def sampleStore_def
        sampleCharacter_def samplePotion_def itemKey_def truthy_def lookupItemData_def
        applyEffect_def removeItemFromInventory_def Let_def)
  from first second third fourth show ?thesis by blast
qed

end
